theory Spec2Isabelle
  imports Main
begin

section \<open>The document tree\<close>

text \<open>
  A node of the document tree (\<^verbatim>\<open>EditorNode\<close>, as the components use it): an identifier, a
  component type, the attribute bag \<^verbatim>\<open>props\<close>, the ordered children and the
  optional text content. The selectors of \<^verbatim>\<open>id\<close> and \<^verbatim>\<open>type\<close> are called
  \<open>nodeId\<close> and \<open>nodeType\<close>. Attributes are kept as an association list from
  attribute name to value. A node without \<^verbatim>\<open>children\<close> has the empty list.
  Identifiers are drawn from \<open>nat\<close>.
\<close>

datatype EditorNode =
  EditorNode (nodeId: nat) (nodeType: string) (props: "(string \<times> string) list")
    (children: "EditorNode list") (content: "string option")

section \<open>Locked regions of the code editor\<close>

text \<open>
  The code editor (\<^verbatim>\<open>CodeEditor\<close>, with the helpers \<^verbatim>\<open>findLockedRegions\<close> and
  \<^verbatim>\<open>isRangeInLockedRegion\<close>) works on Monaco positions: 1-based line and column
  numbers. JavaScript numbers that hold line and column numbers are modelled as \<open>int\<close>.
\<close>

text \<open>\<^verbatim>\<open>interface LockedRegion { startLine; endLine; startColumn; endColumn }\<close>\<close>

record LockedRegion =
  startLine :: int
  endLine :: int
  startColumn :: int
  endColumn :: int

text \<open>
  Monaco's \<^verbatim>\<open>IRange\<close>. Its two column fields are called \<^verbatim>\<open>startColumn\<close> and
  \<^verbatim>\<open>endColumn\<close> in the source; they carry the prefix \<open>range\<close> here because a
  region has fields of the same name.
\<close>

record IRange =
  startLineNumber :: int
  rangeStartColumn :: int
  endLineNumber :: int
  rangeEndColumn :: int

text \<open>
  \<^verbatim>\<open>isRangeInLockedRegion(range, lockedRegions)\<close>: the \<^verbatim>\<open>for ... of\<close> loop over the
  regions, returning \<^verbatim>\<open>true\<close> at the first region for which both tests hold and
  \<^verbatim>\<open>false\<close> after the loop.
\<close>

definition rangeStartsBeforeRegionEnds :: "IRange \<Rightarrow> LockedRegion \<Rightarrow> bool" where
  "rangeStartsBeforeRegionEnds rng region \<longleftrightarrow>
     startLineNumber rng < endLine region \<or>
     (startLineNumber rng = endLine region \<and> rangeStartColumn rng \<le> endColumn region)"

definition rangeEndsAfterRegionStarts :: "IRange \<Rightarrow> LockedRegion \<Rightarrow> bool" where
  "rangeEndsAfterRegionStarts rng region \<longleftrightarrow>
     endLineNumber rng > startLine region \<or>
     (endLineNumber rng = startLine region \<and> rangeEndColumn rng \<ge> startColumn region)"

fun isRangeInLockedRegion :: "IRange \<Rightarrow> LockedRegion list \<Rightarrow> bool" where
  "isRangeInLockedRegion rng [] = False"
| "isRangeInLockedRegion rng (region # lockedRegions) =
     (if rangeStartsBeforeRegionEnds rng region \<and> rangeEndsAfterRegionStarts rng region
      then True
      else isRangeInLockedRegion rng lockedRegions)"

text \<open>
  What it means for an edit range to lie inside a region. A position \<open>(l, c)\<close> is in the
  region when it is not before the region's start position and not after its end
  position, in the order of the text (line first, then column). A range lies within the
  region when both of its end points do.
\<close>

definition positionInRegion :: "int \<Rightarrow> int \<Rightarrow> LockedRegion \<Rightarrow> bool" where
  "positionInRegion l c region \<longleftrightarrow>
     (startLine region < l \<or> (startLine region = l \<and> startColumn region \<le> c)) \<and>
     (l < endLine region \<or> (l = endLine region \<and> c \<le> endColumn region))"

definition rangeWithinRegion :: "IRange \<Rightarrow> LockedRegion \<Rightarrow> bool" where
  "rangeWithinRegion rng region \<longleftrightarrow>
     positionInRegion (startLineNumber rng) (rangeStartColumn rng) region \<and>
     positionInRegion (endLineNumber rng) (rangeEndColumn rng) region"

text \<open>
  The stricter reading, in which the lines of the range are between the region's lines
  and its columns between the region's columns.
\<close>

definition rangeInRegionBox :: "IRange \<Rightarrow> LockedRegion \<Rightarrow> bool" where
  "rangeInRegionBox rng region \<longleftrightarrow>
     startLine region \<le> startLineNumber rng \<and> startLineNumber rng \<le> endLine region \<and>
     startLine region \<le> endLineNumber rng \<and> endLineNumber rng \<le> endLine region \<and>
     startColumn region \<le> rangeStartColumn rng \<and> rangeStartColumn rng \<le> endColumn region \<and>
     startColumn region \<le> rangeEndColumn rng \<and> rangeEndColumn rng \<le> endColumn region"

section \<open>Finding the locked regions\<close>

text \<open>
  \<^verbatim>\<open>findLockedRegions(code)\<close> splits the code into lines and scans every line with two
  regular expressions. Strings are lists of characters; for the ASCII text of the markup
  an index into the list is JavaScript's string index.
\<close>

subsection \<open>Characters and lines\<close>

text \<open>The class \<^verbatim>\<open>[\w-]\<close>: letters, digits, underscore and hyphen.\<close>

definition wordChars :: string where
  "wordChars = ''abcdefghijklmnopqrstuvwxyzABCDEFGHIJKLMNOPQRSTUVWXYZ0123456789_''"

definition isNameChar :: "char \<Rightarrow> bool" where
  "isNameChar c \<longleftrightarrow> c \<in> set wordChars \<or> c = CHR ''-''"

text \<open>\<^verbatim>\<open>toLowerCase()\<close> on ASCII text.\<close>

definition lowerChar :: "char \<Rightarrow> char" where
  "lowerChar c =
     (case map_of (zip ''ABCDEFGHIJKLMNOPQRSTUVWXYZ'' ''abcdefghijklmnopqrstuvwxyz'') c of
        Some l \<Rightarrow> l
      | None \<Rightarrow> c)"

definition toLowerCase :: "string \<Rightarrow> string" where
  "toLowerCase s = map lowerChar s"

text \<open>\<^verbatim>\<open>code.split("\n")\<close>: the pieces between line feeds; never the empty list.\<close>

fun splitLines :: "string \<Rightarrow> string list" where
  "splitLines [] = [[]]"
| "splitLines (c # cs) =
     (if c = CHR 0x0A then [] # splitLines cs
      else (case splitLines cs of
              [] \<Rightarrow> [[c]]
            | l # ls \<Rightarrow> (c # l) # ls))"

subsection \<open>The two regular expressions\<close>

text \<open>
  Matching ignores case (flag \<^verbatim>\<open>i\<close>). \<open>startsWithCI p s\<close>: the literal \<open>p\<close> matches at
  the start of \<open>s\<close>; \<open>containsCI p s\<close>: it matches somewhere in \<open>s\<close>.
\<close>

fun startsWithCI :: "string \<Rightarrow> string \<Rightarrow> bool" where
  "startsWithCI [] s = True"
| "startsWithCI (p # ps) [] = False"
| "startsWithCI (p # ps) (c # cs) = (lowerChar p = lowerChar c \<and> startsWithCI ps cs)"

fun containsCI :: "string \<Rightarrow> string \<Rightarrow> bool" where
  "containsCI p [] = startsWithCI p []"
| "containsCI p (c # cs) = (startsWithCI p (c # cs) \<or> containsCI p cs)"

definition lockedAttribute :: string where
  \<open>lockedAttribute = ''data-locked="true"''\<close>

text \<open>
  The opening-tag expression
  \<^verbatim>\<open>/<(mj-[\w-]+|[\w-]+)[^>]*data-locked="true"[^>]*>/gi\<close>.
  A match starts at a \<^verbatim>\<open><\<close> and ends at the first \<^verbatim>\<open>>\<close> after it, since no part of the
  expression but the last can match \<^verbatim>\<open>>\<close>. Between the two lies the body: the tag name
  (group 1), then anything, then the attribute, then anything. The name is greedy and
  gives characters back until the rest still holds the attribute: \<open>longestName k body\<close>
  tries the prefixes of the body of length \<open>k\<close>, \<open>k - 1\<close>, ..., \<open>1\<close>. Both alternatives of
  the group stand for prefixes made of name characters, and the first alternative covers
  all those of length four or more when it applies, so the longest prefix that works is
  the one the expression finds.
\<close>

fun longestName :: "nat \<Rightarrow> string \<Rightarrow> string option" where
  "longestName 0 body = None"
| "longestName (Suc k) body =
     (if containsCI lockedAttribute (drop (Suc k) body) then Some (take (Suc k) body)
      else longestName k body)"

text \<open>
  \<open>matchOpenTag s\<close>: a match of the opening-tag expression at the start of \<open>s\<close>, as the
  tag name and the length of the body (the match is two characters longer).
\<close>

definition matchOpenTag :: "string \<Rightarrow> (string \<times> nat) option" where
  "matchOpenTag s =
     (case s of
        [] \<Rightarrow> None
      | c # rest \<Rightarrow>
          if c \<noteq> CHR ''<'' then None
          else
            let body = takeWhile (\<lambda>x. x \<noteq> CHR ''>'') rest in
            if length body = length rest then None
            else (case longestName (length (takeWhile isNameChar body)) body of
                    None \<Rightarrow> None
                  | Some name \<Rightarrow> Some (name, length body)))"

text \<open>
  The closing-tag expression \<^verbatim>\<open>/<\/(mj-[\w-]+|[\w-]+)>/gi\<close>: \<^verbatim>\<open></\<close>, a non-empty run of
  name characters, and \<^verbatim>\<open>>\<close> right after the run. The result is the name and its
  length (the match is three characters longer).
\<close>

definition matchCloseTag :: "string \<Rightarrow> (string \<times> nat) option" where
  "matchCloseTag s =
     (case s of
        c1 # c2 # rest \<Rightarrow>
          if c1 = CHR ''<'' \<and> c2 = CHR ''/'' then
            let name = takeWhile isNameChar rest in
            if name \<noteq> [] \<and> take 1 (drop (length name) rest) = ''>''
            then Some (name, length name)
            else None
          else None
      | _ \<Rightarrow> None)"

text \<open>
  The loops \<^verbatim>\<open>while ((match = regex.exec(line)) !== null)\<close> of a global expression:
  the leftmost match at or after \<^verbatim>\<open>lastIndex\<close>, then on from the end of that match.
  An opening match is returned as \<^verbatim>\<open>match.index\<close>, \<^verbatim>\<open>match[0]\<close> and \<^verbatim>\<open>match[1]\<close>;
  a closing match as \<^verbatim>\<open>match[1]\<close>.
\<close>

function execOpenTags :: "string \<Rightarrow> nat \<Rightarrow> (nat \<times> string \<times> string) list" where
  "execOpenTags line i =
     (if length line \<le> i then []
      else (case matchOpenTag (drop i line) of
              None \<Rightarrow> execOpenTags line (Suc i)
            | Some (name, n) \<Rightarrow>
                (i, take (n + 2) (drop i line), name) # execOpenTags line (i + (n + 2))))"
  by pat_completeness auto
termination
  by (relation "measure (\<lambda>(line, i). length line - i)") auto

function execCloseTags :: "string \<Rightarrow> nat \<Rightarrow> string list" where
  "execCloseTags line i =
     (if length line \<le> i then []
      else (case matchCloseTag (drop i line) of
              None \<Rightarrow> execCloseTags line (Suc i)
            | Some (name, n) \<Rightarrow> name # execCloseTags line (i + (n + 3))))"
  by pat_completeness auto
termination
  by (relation "measure (\<lambda>(line, i). length line - i)") auto

subsection \<open>The stack of locked tags\<close>

text \<open>
  An entry of \<^verbatim>\<open>lockedStack\<close>. The fields \<^verbatim>\<open>startLine\<close> and \<^verbatim>\<open>startColumn\<close> of the
  source carry the prefix \<open>tag\<close> here. The stack is the array of the source: \<^verbatim>\<open>push\<close>
  appends, and the top is the last element.
\<close>

record LockedTag =
  tagName :: string
  tagStartLine :: int
  tagStartColumn :: int

text \<open>
  One opening match: a self-closing tag (\<^verbatim>\<open>match[0].endsWith("/>")\<close>) is a region of
  its own; any other tag is pushed.
\<close>

definition endsWith :: "string \<Rightarrow> string \<Rightarrow> bool" where
  "endsWith s suffix \<longleftrightarrow>
     length suffix \<le> length s \<and> drop (length s - length suffix) s = suffix"

definition openLockedTag ::
  "int \<Rightarrow> LockedRegion list \<times> LockedTag list \<Rightarrow> nat \<times> string \<times> string \<Rightarrow>
   LockedRegion list \<times> LockedTag list" where
  "openLockedTag lineNumber st m =
     (case st of (regions, lockedStack) \<Rightarrow>
      (case m of (index, match0, match1) \<Rightarrow>
         if endsWith match0 ''/>'' then
           (regions @ [\<lparr>startLine = lineNumber, endLine = lineNumber,
                         startColumn = int index + 1,
                         endColumn = int index + int (length match0) + 1\<rparr>],
            lockedStack)
         else
           (regions,
            lockedStack @ [\<lparr>tagName = toLowerCase match1, tagStartLine = lineNumber,
                             tagStartColumn = int index + 1\<rparr>])))"

text \<open>
  \<^verbatim>\<open>for (let j = lockedStack.length - 1; j >= 0; j--)\<close> looking for
  \<^verbatim>\<open>lockedStack[j].tagName === closingTagName\<close>: \<open>searchDown lockedStack name n\<close> looks
  at the indices \<open>n - 1\<close>, ..., \<open>0\<close> and returns the first hit.
\<close>

fun searchDown :: "LockedTag list \<Rightarrow> string \<Rightarrow> nat \<Rightarrow> nat option" where
  "searchDown lockedStack name 0 = None"
| "searchDown lockedStack name (Suc j) =
     (if tagName (lockedStack ! j) = name then Some j
      else searchDown lockedStack name j)"

text \<open>
  One closing match: the entry found is taken out with \<^verbatim>\<open>splice(j, 1)\<close> and its region
  is pushed, from the tag's line to the whole of the current line; without a hit nothing
  changes.
\<close>

definition closeLockedTag ::
  "int \<Rightarrow> nat \<Rightarrow> LockedRegion list \<times> LockedTag list \<Rightarrow> string \<Rightarrow>
   LockedRegion list \<times> LockedTag list" where
  "closeLockedTag lineNumber lineLength st match1 =
     (case st of (regions, lockedStack) \<Rightarrow>
        (case searchDown lockedStack (toLowerCase match1) (length lockedStack) of
           None \<Rightarrow> (regions, lockedStack)
         | Some j \<Rightarrow>
             (regions @ [\<lparr>startLine = tagStartLine (lockedStack ! j), endLine = lineNumber,
                           startColumn = 1, endColumn = int lineLength + 1\<rparr>],
              take j lockedStack @ drop (Suc j) lockedStack)))"

text \<open>
  The body of the loop over the lines: first all opening matches of the line, then, if
  the stack is not empty, all its closing matches.
\<close>

definition scanLine ::
  "LockedRegion list \<times> LockedTag list \<Rightarrow> int \<times> string \<Rightarrow>
   LockedRegion list \<times> LockedTag list" where
  "scanLine st numbered =
     (case numbered of (lineNumber, line) \<Rightarrow>
        let opened = foldl (openLockedTag lineNumber) st (execOpenTags line 0) in
        if snd opened \<noteq> [] then
          foldl (closeLockedTag lineNumber (length line)) opened (execCloseTags line 0)
        else opened)"

definition numberLines :: "string list \<Rightarrow> (int \<times> string) list" where
  "numberLines ls = zip (map (\<lambda>i. int i + 1) [0..<length ls]) ls"

definition scanLines :: "string \<Rightarrow> LockedRegion list \<times> LockedTag list" where
  "scanLines c = foldl scanLine ([], []) (numberLines (splitLines c))"

definition findLockedRegions :: "string \<Rightarrow> LockedRegion list" where
  "findLockedRegions c = fst (scanLines c)"

subsection \<open>The nesting-stack policy of the specification\<close>

text \<open>
  Modelled from the spec: the parser is not among the sources; this is its recovery
  policy as the specification words it, for the stack of open tags
  (top last): when a closing tag does not match the top of the stack, search downward
  for a match; if found, close the match and all intervening entries; if not found,
  ignore the stray closing tag. \<open>nestingSearch\<close> is the downward search, and
  \<open>nestingStackClose\<close> the stack that is left.
\<close>

fun nestingSearch :: "string list \<Rightarrow> string \<Rightarrow> nat \<Rightarrow> nat option" where
  "nestingSearch openTags name 0 = None"
| "nestingSearch openTags name (Suc j) =
     (if openTags ! j = name then Some j else nestingSearch openTags name j)"

definition nestingStackClose :: "string list \<Rightarrow> string \<Rightarrow> string list" where
  "nestingStackClose openTags name =
     (case nestingSearch openTags name (length openTags) of
        None \<Rightarrow> openTags
      | Some j \<Rightarrow> take j openTags)"

subsection \<open>An example: two locked tags closed in the wrong order\<close>

text \<open>
  Four lines of markup in which the locked section is closed before the locked column
  inside it; \<open>joinLines\<close> puts line feeds between lines.
\<close>

definition crossedLockedTags :: "string list" where
  \<open>crossedLockedTags =
     [''<mj-section data-locked="true">'', ''<mj-column data-locked="true">'',
      ''</mj-section>'', ''</mj-column>'']\<close>

definition joinLines :: "string list \<Rightarrow> string" where
  "joinLines ls = concat (case ls of [] \<Rightarrow> [] | l # rest \<Rightarrow> l # map (\<lambda>x. CHR 0x0A # x) rest)"

section \<open>The code editor's synchronisation with the document\<close>

text \<open>
  The state that \<^verbatim>\<open>CodeEditor\<close> reads and writes: \<^verbatim>\<open>document\<close> and
  \<^verbatim>\<open>headSettings\<close> of the editor store, and the component's own \<^verbatim>\<open>editedCode\<close>
  and \<^verbatim>\<open>error\<close> (\<^verbatim>\<open>null\<close> is \<open>None\<close>). The field \<open>setDocumentCalls\<close> records
  the arguments of the calls of the store action \<^verbatim>\<open>setDocument\<close>, in order.
\<close>

record 'h CodeEditorState =
  document :: EditorNode
  headSettings :: 'h
  editedCode :: "string option"
  error :: "string option"
  setDocumentCalls :: "EditorNode list"

text \<open>
  \<^verbatim>\<open>const code = editedCode ?? generatedMjml\<close> and
  \<^verbatim>\<open>const isDirty = editedCode !== null\<close>. The serializer \<^verbatim>\<open>generateMjml\<close> is
  imported by the component and is a parameter here.
\<close>

definition code ::
  "(EditorNode \<Rightarrow> 'h \<Rightarrow> string) \<Rightarrow> ('h, 'z) CodeEditorState_scheme \<Rightarrow> string" where
  "code generateMjml s =
     (case editedCode s of
        Some edited \<Rightarrow> edited
      | None \<Rightarrow> generateMjml (document s) (headSettings s))"

definition isDirty :: "('h, 'z) CodeEditorState_scheme \<Rightarrow> bool" where
  "isDirty s \<longleftrightarrow> editedCode s \<noteq> None"

text \<open>
  The store action \<^verbatim>\<open>setDocument\<close> lives in the editor store; the component only
  calls it. It is modelled as replacing the store's document, and the call is recorded.
\<close>

definition setDocument ::
  "EditorNode \<Rightarrow> ('h, 'z) CodeEditorState_scheme \<Rightarrow> ('h, 'z) CodeEditorState_scheme" where
  "setDocument node s = s\<lparr>document := node, setDocumentCalls := setDocumentCalls s @ [node]\<rparr>"

text \<open>
  The parser \<^verbatim>\<open>parseMjmlToNode\<close> is imported by the component and is a parameter
  \<open>parseMjmlToNode :: string \<Rightarrow> string + EditorNode option\<close>: \<open>Inl message\<close> when it throws
  an error with that message, \<open>Inr None\<close> when it returns a value that fails the test
  \<^verbatim>\<open>if (node)\<close>, \<open>Inr (Some node)\<close> when it returns a tree.

  The callback of the auto-sync timeout, for the code \<open>c\<close> that the effect captured:
  \<^verbatim>\<open>
    try {
      const node = parseMjmlToNode(code);
      if (node) { setDocument(node); setError(null); }
    } catch (err) { setError((err as Error).message); }
  \<close>
\<close>

definition autoSyncCallback ::
  "(string \<Rightarrow> string + EditorNode option) \<Rightarrow> string \<Rightarrow>
   ('h, 'z) CodeEditorState_scheme \<Rightarrow> ('h, 'z) CodeEditorState_scheme" where
  "autoSyncCallback parseMjmlToNode c s =
     (case parseMjmlToNode c of
        Inl message \<Rightarrow> s\<lparr>error := Some message\<rparr>
      | Inr None \<Rightarrow> s
      | Inr (Some node) \<Rightarrow> (setDocument node s)\<lparr>error := None\<rparr>)"

text \<open>
  The auto-sync effect itself: nothing when the editor is not dirty, otherwise a timeout
  of 500 ms whose callback parses the current code. The result is the delay and the code
  captured by the callback.
\<close>

definition autoSyncEffect ::
  "(EditorNode \<Rightarrow> 'h \<Rightarrow> string) \<Rightarrow> ('h, 'z) CodeEditorState_scheme \<Rightarrow> (nat \<times> string) option" where
  "autoSyncEffect generateMjml s =
     (if \<not> isDirty s then None else Some (500, code generateMjml s))"

text \<open>
  \<^verbatim>\<open>handleSync\<close>, the handler of the button "Apply Changes":
  \<^verbatim>\<open>
    try {
      const node = parseMjmlToNode(code);
      if (node) { setDocument(node); setEditedCode(null); setError(null); }
      else { setError("Failed to parse MJML. Please check the syntax."); }
    } catch (err) { setError((err as Error).message); }
  \<close>
\<close>

definition handleSync ::
  "(string \<Rightarrow> string + EditorNode option) \<Rightarrow> (EditorNode \<Rightarrow> 'h \<Rightarrow> string) \<Rightarrow>
   ('h, 'z) CodeEditorState_scheme \<Rightarrow> ('h, 'z) CodeEditorState_scheme" where
  "handleSync parseMjmlToNode generateMjml s =
     (case parseMjmlToNode (code generateMjml s) of
        Inl message \<Rightarrow> s\<lparr>error := Some message\<rparr>
      | Inr None \<Rightarrow> s\<lparr>error := Some ''Failed to parse MJML. Please check the syntax.''\<rparr>
      | Inr (Some node) \<Rightarrow> (setDocument node s)\<lparr>editedCode := None, error := None\<rparr>)"

text \<open>
  \<^verbatim>\<open>handleChange(value)\<close>, the editor's \<^verbatim>\<open>onChange\<close>: an \<^verbatim>\<open>undefined\<close> value
  (\<open>None\<close>) changes nothing.
\<close>

definition handleChange ::
  "string option \<Rightarrow> ('h, 'z) CodeEditorState_scheme \<Rightarrow> ('h, 'z) CodeEditorState_scheme" where
  "handleChange v s =
     (case v of None \<Rightarrow> s | Some text \<Rightarrow> s\<lparr>editedCode := Some text, error := None\<rparr>)"

subsection \<open>The debounce timer\<close>

text \<open>
  Time is counted in milliseconds. \<open>timer\<close> is the pending timeout of the auto-sync
  effect, if any: the time at which it is due and the code its callback captured.
  \<open>parseCalls\<close> records the time and the argument of every call of
  \<^verbatim>\<open>parseMjmlToNode\<close> made by the auto-sync callback.
\<close>

record 'h TimedEditor = "'h CodeEditorState" +
  now :: nat
  timer :: "(nat \<times> string) option"
  parseCalls :: "(nat \<times> string) list"

text \<open>
  The effect has the dependencies \<^verbatim>\<open>[code, isDirty, setDocument]\<close> and returns the
  cleanup \<^verbatim>\<open>() => clearTimeout(timer)\<close>. After a state change, React runs the cleanup
  and the effect again exactly when a dependency changed (\<^verbatim>\<open>setDocument\<close> is a stable
  store action): the pending timeout is cleared and, when the editor is dirty, a new one
  is set 500 ms from now.
\<close>

definition rerender ::
  "(EditorNode \<Rightarrow> 'h \<Rightarrow> string) \<Rightarrow> 'h TimedEditor \<Rightarrow> 'h TimedEditor \<Rightarrow> 'h TimedEditor" where
  "rerender generateMjml old new =
     (if code generateMjml old = code generateMjml new \<and> isDirty old = isDirty new then new
      else new\<lparr>timer :=
        (case autoSyncEffect generateMjml new of
           None \<Rightarrow> None
         | Some (delay, c) \<Rightarrow> Some (now new + delay, c))\<rparr>)"

text \<open>
  What happens to the editor: the user's edit arrives through \<^verbatim>\<open>onChange\<close> with the
  new text, or time passes. When the pending timeout falls due during a wait, its
  callback runs at the due time.
\<close>

datatype event = Change string | Wait nat

fun step ::
  "(string \<Rightarrow> string + EditorNode option) \<Rightarrow> (EditorNode \<Rightarrow> 'h \<Rightarrow> string) \<Rightarrow>
   event \<Rightarrow> 'h TimedEditor \<Rightarrow> 'h TimedEditor" where
  "step parseMjmlToNode generateMjml (Change text) s =
     rerender generateMjml s (handleChange (Some text) s)"
| "step parseMjmlToNode generateMjml (Wait d) s =
     (case timer s of
        None \<Rightarrow> s\<lparr>now := now s + d\<rparr>
      | Some (due, c) \<Rightarrow>
          if due \<le> now s + d then
            let fired = s\<lparr>timer := None, parseCalls := parseCalls s @ [(due, c)]\<rparr>;
                synced = rerender generateMjml fired (autoSyncCallback parseMjmlToNode c fired)
            in synced\<lparr>now := now s + d\<rparr>
          else s\<lparr>now := now s + d\<rparr>)"

fun run ::
  "(string \<Rightarrow> string + EditorNode option) \<Rightarrow> (EditorNode \<Rightarrow> 'h \<Rightarrow> string) \<Rightarrow>
   event list \<Rightarrow> 'h TimedEditor \<Rightarrow> 'h TimedEditor" where
  "run parseMjmlToNode generateMjml [] s = s"
| "run parseMjmlToNode generateMjml (e # es) s =
     run parseMjmlToNode generateMjml es (step parseMjmlToNode generateMjml e s)"




text \<open>An editor at rest, for the examples: nothing edited, no timeout pending.\<close>

definition editorAtRest :: "unit TimedEditor" where
  "editorAtRest =
     \<lparr>document = EditorNode 0 ''mjml'' [] [] None, headSettings = (),
      editedCode = None, error = None, setDocumentCalls = [],
      now = 0, timer = None, parseCalls = []\<rparr>"




section \<open>The email-sending route\<close>

text \<open>
  The handler \<^verbatim>\<open>POST\<close> reads the request body with \<^verbatim>\<open>request.json()\<close>, so the body is
  any JSON value; TypeScript's annotation \<^verbatim>\<open>SendEmailRequest\<close> is not checked at run
  time. JavaScript values as far as the handler meets them: \<^verbatim>\<open>undefined\<close>, and the JSON
  values. Numbers are integers here; the handler only tests them for truth and passes
  them on. An object is the list of its properties, each name once (\<^verbatim>\<open>JSON.parse\<close> keeps
  one value per name).
\<close>

datatype jsval =
  JUndefined
| JNull
| JBool bool
| JNum int
| JStr string
| JArr "jsval list"
| JObj "(string \<times> jsval) list"

text \<open>
  What can be thrown: a \<^verbatim>\<open>TypeError\<close> for reading a property of \<^verbatim>\<open>null\<close> or
  \<^verbatim>\<open>undefined\<close> (the value and the property), another instance of \<^verbatim>\<open>Error\<close> with its
  message, or any other value.
\<close>

datatype exn =
  TypeError jsval string
| JsError string
| Thrown jsval

text \<open>
  \<^verbatim>\<open>v.k\<close>: a \<^verbatim>\<open>TypeError\<close> on \<^verbatim>\<open>null\<close> and \<^verbatim>\<open>undefined\<close>; the property of an object,
  or \<^verbatim>\<open>undefined\<close> when it has none of that name; \<^verbatim>\<open>undefined\<close> on booleans, numbers,
  strings and arrays, which have no property of any of the names the handler reads.
\<close>

fun getProp :: "jsval \<Rightarrow> string \<Rightarrow> exn + jsval" where
  "getProp JUndefined k = Inl (TypeError JUndefined k)"
| "getProp JNull k = Inl (TypeError JNull k)"
| "getProp (JObj ps) k = Inr (case map_of ps k of Some v \<Rightarrow> v | None \<Rightarrow> JUndefined)"
| "getProp v k = Inr JUndefined"

text \<open>\<^verbatim>\<open>v?.k\<close>: \<^verbatim>\<open>undefined\<close> on \<^verbatim>\<open>null\<close> and \<^verbatim>\<open>undefined\<close>, otherwise \<^verbatim>\<open>v.k\<close>.\<close>

fun optProp :: "jsval \<Rightarrow> string \<Rightarrow> jsval" where
  "optProp (JObj ps) k = (case map_of ps k of Some v \<Rightarrow> v | None \<Rightarrow> JUndefined)"
| "optProp v k = JUndefined"

text \<open>Truthiness, as \<^verbatim>\<open>!v\<close>, \<^verbatim>\<open>v || w\<close> and \<^verbatim>\<open>if (v)\<close> test it.\<close>

fun truthy :: "jsval \<Rightarrow> bool" where
  "truthy JUndefined = False"
| "truthy JNull = False"
| "truthy (JBool b) = b"
| "truthy (JNum n) = (n \<noteq> 0)"
| "truthy (JStr s) = (s \<noteq> [])"
| "truthy (JArr vs) = True"
| "truthy (JObj ps) = True"

definition orElse :: "jsval \<Rightarrow> jsval \<Rightarrow> jsval" where
  "orElse v w = (if truthy v then v else w)"

text \<open>
  The world outside the handler: the Resend client, nodemailer and the JavaScript engine.
  \<open>resendSend key args\<close> is \<^verbatim>\<open>new Resend(key).emails.send(args)\<close>;
  \<open>sendMail config message\<close> is \<^verbatim>\<open>nodemailer.createTransport(config).sendMail(message)\<close>;
  each returns the value the promise resolves to, or what is thrown.
  \<open>toStringJs\<close> is the conversion inside a template literal, and \<open>errorMessage\<close> the
  message the engine gives a \<^verbatim>\<open>TypeError\<close>.
\<close>

record world =
  resendSend :: "jsval \<Rightarrow> jsval \<Rightarrow> exn + jsval"
  createTestAccount :: "exn + jsval"
  sendMail :: "jsval \<Rightarrow> jsval \<Rightarrow> exn + jsval"
  getTestMessageUrl :: "jsval \<Rightarrow> jsval"
  toStringJs :: "jsval \<Rightarrow> string"
  errorMessage :: "jsval \<Rightarrow> string \<Rightarrow> string"

text \<open>The calls that leave the handler, in order.\<close>

datatype call =
  ResendSend jsval jsval
| CreateTestAccount
| SendMail jsval jsval

text \<open>\<^verbatim>\<open>NextResponse.json(body, { status })\<close>; the status is 200 when none is given.\<close>

record response =
  status :: nat
  json :: jsval

text \<open>
  A computation of the handler gives a value or throws, and makes calls. \<open>andThen\<close>
  runs the next step on the value; once something is thrown, the rest is skipped and the
  calls made so far stay made.
\<close>

type_synonym 'a eff = "(exn + 'a) \<times> call list"

definition ret :: "'a \<Rightarrow> 'a eff" where
  "ret x = (Inr x, [])"

definition andThen :: "'a eff \<Rightarrow> ('a \<Rightarrow> 'b eff) \<Rightarrow> 'b eff" where
  "andThen m f =
     (case m of
        (Inl e, calls) \<Rightarrow> (Inl e, calls)
      | (Inr x, calls) \<Rightarrow> (case f x of (r, calls') \<Rightarrow> (r, calls @ calls')))"

definition errorResponse :: "string \<Rightarrow> nat \<Rightarrow> response" where
  "errorResponse message st = \<lparr>status = st, json = JObj [(''error'', JStr message)]\<rparr>"

text \<open>
  The branch \<^verbatim>\<open>body.mode === "resend"\<close>, after the check of the API key.
\<close>

definition sendWithResend :: "world \<Rightarrow> jsval \<Rightarrow> jsval \<Rightarrow> jsval \<Rightarrow> response eff" where
  "sendWithResend w body email key =
     (let fromAddress = orElse (optProp email ''from'') (JStr ''Mail Studio <onboarding@resend.dev>'');
          args = JObj [(''from'', fromAddress), (''to'', optProp email ''to''),
                       (''subject'', optProp email ''subject''), (''html'', optProp email ''html''),
                       (''text'', orElse (optProp email ''text'') JUndefined)]
      in andThen (resendSend w key args, [ResendSend key args]) (\<lambda>result.
         andThen (getProp result ''data'', []) (\<lambda>data.
         andThen (getProp result ''error'', []) (\<lambda>err.
           if truthy err then
             andThen (getProp err ''message'', []) (\<lambda>message.
               ret \<lparr>status = 400, json = JObj [(''error'', message)]\<rparr>)
           else
             ret \<lparr>status = 200,
                    json = JObj [(''success'', JBool True), (''messageId'', optProp data ''id''),
                                 (''mode'', JStr ''resend''), (''realDelivery'', JBool True)]\<rparr>))))"

text \<open>
  The rest of the handler, for the test mode (an Ethereal account made on the spot) and
  for custom SMTP, through nodemailer.
\<close>

definition sendWithNodemailer :: "world \<Rightarrow> jsval \<Rightarrow> jsval \<Rightarrow> jsval \<Rightarrow> response eff" where
  "sendWithNodemailer w body email mode =
     andThen
       (if mode = JStr ''test'' then
          andThen (createTestAccount w, [CreateTestAccount]) (\<lambda>testAccount.
          andThen (getProp testAccount ''user'', []) (\<lambda>user.
          andThen (getProp testAccount ''pass'', []) (\<lambda>pass.
            ret (Inr
              (JObj [(''host'', JStr ''smtp.ethereal.email''), (''port'', JNum 587),
                     (''secure'', JBool False),
                     (''auth'', JObj [(''user'', user), (''pass'', pass)])],
               JStr (''\"Mail Studio Test\" <'' @ toStringJs w user @ ''>''))))))
        else
          andThen (getProp body ''smtp'', []) (\<lambda>smtp.
            if \<not> truthy (optProp smtp ''host'') \<or>
               \<not> truthy (optProp (optProp smtp ''auth'') ''user'') \<or>
               \<not> truthy (optProp (optProp smtp ''auth'') ''pass'')
            then ret (Inl (errorResponse ''Missing SMTP configuration'' 400))
            else if \<not> truthy (optProp email ''from'')
            then ret (Inl (errorResponse ''Missing sender email address'' 400))
            else
              ret (Inr
                (JObj [(''host'', optProp smtp ''host''), (''port'', optProp smtp ''port''),
                       (''secure'', optProp smtp ''secure''),
                       (''auth'', JObj [(''user'', optProp (optProp smtp ''auth'') ''user''),
                                        (''pass'', optProp (optProp smtp ''auth'') ''pass'')])],
                 optProp email ''from''))))
       (\<lambda>prepared.
          case prepared of
            Inl early \<Rightarrow> ret early
          | Inr (config, fromAddress) \<Rightarrow>
              let message = JObj [(''from'', fromAddress), (''to'', optProp email ''to''),
                                  (''subject'', optProp email ''subject''),
                                  (''html'', optProp email ''html''),
                                  (''text'', orElse (optProp email ''text'') (JStr ''''))]
              in andThen (sendMail w config message, [SendMail config message]) (\<lambda>info.
                 andThen (getProp info ''messageId'', []) (\<lambda>messageId.
                 andThen (getProp info ''response'', []) (\<lambda>resp.
                   ret \<lparr>status = 200,
                          json = JObj [(''success'', JBool True), (''messageId'', messageId),
                                       (''response'', resp),
                                       (''previewUrl'',
                                          if mode = JStr ''test''
                                          then orElse (getTestMessageUrl w info) JNull
                                          else JNull),
                                       (''mode'', mode),
                                       (''realDelivery'', JBool (mode = JStr ''smtp''))]\<rparr>))))"

text \<open>
  The body of the \<^verbatim>\<open>try\<close> block. \<open>request\<close> is the outcome of
  \<^verbatim>\<open>await request.json()\<close>: the parsed body, or what it throws.
\<close>

definition tryPOST :: "world \<Rightarrow> exn + jsval \<Rightarrow> response eff" where
  "tryPOST w request =
     andThen (request, []) (\<lambda>body.
     andThen (getProp body ''email'', []) (\<lambda>email.
       if \<not> truthy (optProp email ''to'') \<or> \<not> truthy (optProp email ''subject'') \<or>
          \<not> truthy (optProp email ''html'')
       then ret (errorResponse ''Missing email content (to, subject, html)'' 400)
       else
         andThen (getProp body ''mode'', []) (\<lambda>mode.
           if mode = JStr ''resend'' then
             andThen (getProp body ''resendApiKey'', []) (\<lambda>key.
               if \<not> truthy key then ret (errorResponse ''Missing Resend API Key'' 400)
               else sendWithResend w body email key)
           else sendWithNodemailer w body email mode)))"

text \<open>
  The \<^verbatim>\<open>catch\<close> block: status 500 with the message of an \<^verbatim>\<open>Error\<close>, or with
  "Failed to send email" for any other thrown value. (It also writes to the console.)
\<close>

definition POST :: "world \<Rightarrow> exn + jsval \<Rightarrow> response \<times> call list" where
  "POST w request =
     (case tryPOST w request of
        (Inr r, calls) \<Rightarrow> (r, calls)
      | (Inl (TypeError v k), calls) \<Rightarrow> (errorResponse (errorMessage w v k) 500, calls)
      | (Inl (JsError message), calls) \<Rightarrow> (errorResponse message 500, calls)
      | (Inl (Thrown v), calls) \<Rightarrow> (errorResponse ''Failed to send email'' 500, calls))"

text \<open>A world for the examples, in which every send succeeds.\<close>

definition obligingWorld :: world where
  "obligingWorld =
     \<lparr>resendSend = (\<lambda>key args. Inr (JObj [(''data'', JObj [(''id'', JStr ''re_1'')]), (''error'', JNull)])),
      createTestAccount = Inr (JObj [(''user'', JStr ''u@ethereal.email''), (''pass'', JStr ''p'')]),
      sendMail = (\<lambda>config message. Inr (JObj [(''messageId'', JStr ''<1@ethereal.email>''), (''response'', JStr ''250 Accepted'')])),
      getTestMessageUrl = (\<lambda>info. JStr ''https://ethereal.email/message/1''),
      toStringJs = (\<lambda>v. case v of JStr s \<Rightarrow> s | _ \<Rightarrow> ''''),
      errorMessage = (\<lambda>v k. ''Cannot read properties of null (reading '' @ k @ '')'')\<rparr>"

text \<open>A request for delivery through Resend that carries no API key.\<close>

definition requestWithoutKey :: jsval where
  "requestWithoutKey =
     JObj [(''mode'', JStr ''resend''),
           (''email'', JObj [(''to'', JStr ''a@b.c''), (''subject'', JStr ''Hello''),
                            (''html'', JStr ''<p>Hi</p>'')])]"

section \<open>Identifiers and cloning\<close>

text \<open>
  The identifiers of a tree, root first and then the children's from left to right, and
  the tree with all identifiers erased (set to 0). Two trees are structurally equal
  modulo node identifiers when erasing the identifiers makes them equal: types,
  attributes, order of children and content then agree.
\<close>

fun nodeIds :: "EditorNode \<Rightarrow> nat list" where
  "nodeIds (EditorNode i t p cs c) = i # concat (map nodeIds cs)"

fun withoutIds :: "EditorNode \<Rightarrow> EditorNode" where
  "withoutIds (EditorNode i t p cs c) = EditorNode 0 t p (map withoutIds cs) c"

text \<open>
  Modelled from the spec: \<^verbatim>\<open>generateId\<close> is exported by the schema module, which is not
  among the sources; only its uses are (\<^verbatim>\<open>EditableSocial\<close> calls it for a new element).
  The specification asks for a value unique within the lifetime of the process and names
  a monotonic counter as one way. The counter is the state: \<open>generateId next\<close> returns
  the identifier and the counter after the call.
\<close>

definition generateId :: "nat \<Rightarrow> nat \<times> nat" where
  "generateId next = (next, Suc next)"

text \<open>
  Modelled from the spec: \<^verbatim>\<open>cloneDocumentWithNewIds\<close> is exported by the templates
  module, which is not among the sources. The specification: it deep-copies a tree,
  assigning every node (root and all descendants) a freshly generated identifier;
  attributes, content and child order are preserved exactly.
\<close>

fun cloneNode :: "EditorNode \<Rightarrow> nat \<Rightarrow> EditorNode \<times> nat"
  and cloneChildren :: "EditorNode list \<Rightarrow> nat \<Rightarrow> EditorNode list \<times> nat" where
  "cloneNode (EditorNode i t p cs c) next =
     (case generateId next of (fresh, next1) \<Rightarrow>
        (case cloneChildren cs next1 of (cs', next2) \<Rightarrow> (EditorNode fresh t p cs' c, next2)))"
| "cloneChildren [] next = ([], next)"
| "cloneChildren (x # xs) next =
     (case cloneNode x next of (x', next1) \<Rightarrow>
        (case cloneChildren xs next1 of (xs', next2) \<Rightarrow> (x' # xs', next2)))"

text \<open>
  Modelled from the spec: \<^verbatim>\<open>cloneDocumentWithNewIds(root)\<close> is the copy of the root, with
  the counter of \<^verbatim>\<open>generateId\<close> before and after.
\<close>

definition cloneDocumentWithNewIds :: "EditorNode \<Rightarrow> nat \<Rightarrow> EditorNode \<times> nat" where
  "cloneDocumentWithNewIds root next = cloneNode root next"

text \<open>
  A starter tree for the examples, in the shape the specification gives
  \<^verbatim>\<open>emptyDocument()\<close>: root, body, one section, one column.
\<close>

definition starterTree :: EditorNode where
  "starterTree =
     EditorNode 1 ''mjml'' []
       [EditorNode 2 ''mj-body'' [(''width'', ''600px'')]
          [EditorNode 3 ''mj-section'' []
             [EditorNode 4 ''mj-column'' [] [] None] None] None] None"

section \<open>The component schema\<close>

text \<open>
  Modelled from the spec: the component schema (\<^verbatim>\<open>componentDefinitions\<close>,
  \<^verbatim>\<open>getComponentDefinition\<close>, \<^verbatim>\<open>getAllowedChildren\<close>, \<^verbatim>\<open>canContain\<close>) is exported by the
  schema module, which is not among the sources. By the specification a definition
  declares the allowed attribute names with their default values, whether the type
  accepts children and which child types, and (for \<^verbatim>\<open>createNode\<close>) the default children
  and content; display name, category and icon play no part here. The registry itself
  is a parameter: \<open>schema\<close> is \<^verbatim>\<open>getComponentDefinition\<close>, with \<open>None\<close> for a type
  without definition.
\<close>

record componentDefinition =
  defaultProps :: "(string \<times> string) list"
  acceptsChildren :: bool
  childTypes :: "string list"
  defaultChildren :: "EditorNode list"
  defaultContent :: "string option"

type_synonym schema = "string \<Rightarrow> componentDefinition option"

text \<open>
  Modelled from the spec: \<^verbatim>\<open>getAllowedChildren(type)\<close> is the ordered set of child types
  permissible under the type, empty for leaf types (and for a type without definition);
  \<^verbatim>\<open>canContain(parentType, childType)\<close> is the membership test against it.
\<close>

definition getAllowedChildren :: "schema \<Rightarrow> string \<Rightarrow> string list" where
  "getAllowedChildren schema t =
     (case schema t of
        None \<Rightarrow> []
      | Some d \<Rightarrow> if acceptsChildren d then childTypes d else [])"

definition canContain :: "schema \<Rightarrow> string \<Rightarrow> string \<Rightarrow> bool" where
  "canContain schema parentType childType \<longleftrightarrow> childType \<in> set (getAllowedChildren schema parentType)"

section \<open>The parser\<close>

text \<open>
  Modelled from the spec: \<^verbatim>\<open>parseMjmlToNode\<close> is exported by the compiler module, which
  is not among the sources; the code editor calls it. The specification: it tokenizes
  tags, attributes and text, and builds a tree respecting nesting, with the policies
  quoted at the definitions below. The specification gives no grammar for the tokens, so
  the tokenizer is a parameter \<open>tokenize :: string \<Rightarrow> string + token list\<close>, \<open>Inl\<close> being the
  parse error with its message. A token carries the markup it was read from.
\<close>

datatype token =
  OpenTag string "(string \<times> string) list" string
| SelfClosingTag string "(string \<times> string) list" string
| CloseTag string string
| TextToken string

fun tokenMarkup :: "token \<Rightarrow> string" where
  "tokenMarkup (OpenTag name attrs markup) = markup"
| "tokenMarkup (SelfClosingTag name attrs markup) = markup"
| "tokenMarkup (CloseTag name markup) = markup"
| "tokenMarkup (TextToken s) = s"

text \<open>
  Modelled from the spec: the parser keeps an explicit stack of open elements. An entry
  of the stack: the tag, its attributes, the children and the text gathered so far, and
  the markup of the element so far.
\<close>

record frame =
  frameType :: string
  frameProps :: "(string \<times> string) list"
  frameChildren :: "EditorNode list"
  frameContent :: string
  frameMarkup :: string

text \<open>
  Modelled from the spec: a raw passthrough node preserves markup verbatim; its type is
  \<^verbatim>\<open>mj-raw\<close>, the raw-HTML passthrough among the component kinds. The parser builds
  its nodes with the identifier 0 and numbers the finished tree at the end.
\<close>

definition rawNode :: "string \<Rightarrow> EditorNode" where
  "rawNode markup = EditorNode 0 ''mj-raw'' [] [] (Some markup)"

definition isRaw :: "EditorNode \<Rightarrow> bool" where
  "isRaw node \<longleftrightarrow> nodeType node = ''mj-raw''"

text \<open>Modelled from the spec: absent attributes fall back to the schema defaults.\<close>

definition withDefaults ::
  "componentDefinition \<Rightarrow> (string \<times> string) list \<Rightarrow> (string \<times> string) list" where
  "withDefaults d attrs = attrs @ filter (\<lambda>(k, v). map_of attrs k = None) (defaultProps d)"

text \<open>
  Modelled from the spec: the node of a finished element. Unknown tag names are
  preserved as a raw passthrough node carrying the original markup verbatim. A type that
  accepts children is structural; for the others the text between the tags is the
  content.
\<close>

definition makeNode :: "schema \<Rightarrow> frame \<Rightarrow> EditorNode" where
  "makeNode schema f =
     (case schema (frameType f) of
        None \<Rightarrow> rawNode (frameMarkup f)
      | Some d \<Rightarrow>
          if acceptsChildren d
          then EditorNode 0 (frameType f) (withDefaults d (frameProps f)) (frameChildren f) None
          else EditorNode 0 (frameType f) (withDefaults d (frameProps f)) []
                 (if frameContent f = [] then None else Some (frameContent f)))"

text \<open>
  Modelled from the spec: a misplaced child (one that the parent's type cannot contain)
  is either coerced to a raw node or dropped, never reparented into the invalid slot.
  The specification leaves the choice open; it is a parameter.
\<close>

datatype misplaced = CoerceToRaw | Discard

text \<open>
  Modelled from the spec: the state of the tree builder is the stack of open elements,
  top first, and the finished top-level nodes; \<open>attach\<close> hands a finished node, with its
  markup, to the element on top of the stack, deciding with \<^verbatim>\<open>canContain\<close> whether to
  keep, coerce or discard it; a node outside all elements becomes a top-level node.
\<close>

definition attach ::
  "schema \<Rightarrow> misplaced \<Rightarrow> EditorNode \<Rightarrow> string \<Rightarrow> frame list \<times> EditorNode list \<Rightarrow>
   frame list \<times> EditorNode list" where
  "attach schema policy node markup st =
     (case st of
        ([], roots) \<Rightarrow> ([], roots @ [node])
      | (f # rest, roots) \<Rightarrow>
          let f' = f\<lparr>frameMarkup := frameMarkup f @ markup\<rparr> in
          if canContain schema (frameType f) (nodeType node) \<or> isRaw node
          then (f'\<lparr>frameChildren := frameChildren f @ [node]\<rparr> # rest, roots)
          else (case policy of
                  CoerceToRaw \<Rightarrow> (f'\<lparr>frameChildren := frameChildren f @ [rawNode markup]\<rparr> # rest, roots)
                | Discard \<Rightarrow> (f' # rest, roots)))"

text \<open>
  Modelled from the spec: closing the element on top of the stack (its node goes to the
  element below), and closing the \<open>k\<close> topmost.
\<close>

definition closeTop ::
  "schema \<Rightarrow> misplaced \<Rightarrow> frame list \<times> EditorNode list \<Rightarrow> frame list \<times> EditorNode list" where
  "closeTop schema policy st =
     (case st of
        ([], roots) \<Rightarrow> ([], roots)
      | (f # rest, roots) \<Rightarrow> attach schema policy (makeNode schema f) (frameMarkup f) (rest, roots))"

fun closeFrames ::
  "schema \<Rightarrow> misplaced \<Rightarrow> nat \<Rightarrow> frame list \<times> EditorNode list \<Rightarrow>
   frame list \<times> EditorNode list" where
  "closeFrames schema policy 0 st = st"
| "closeFrames schema policy (Suc k) st = closeFrames schema policy k (closeTop schema policy st)"

text \<open>
  Modelled from the spec: mismatched closing tags. When a closing tag does not match the
  top of the open-tag stack, search downward in the stack for a match.
  \<open>findOpen name stack\<close> is the number of entries above the nearest match.
\<close>

fun findOpen :: "string \<Rightarrow> frame list \<Rightarrow> nat option" where
  "findOpen name [] = None"
| "findOpen name (f # fs) =
     (if frameType f = name then Some 0 else map_option Suc (findOpen name fs))"

text \<open>
  Modelled from the spec: text content is captured verbatim, inline markup included.
  Inside an element that is not structural (a text-bearing type, or an unknown tag)
  whatever comes before its end is taken as it stands.
\<close>

definition absorbs :: "schema \<Rightarrow> frame \<Rightarrow> bool" where
  "absorbs schema f \<longleftrightarrow>
     (case schema (frameType f) of None \<Rightarrow> True | Some d \<Rightarrow> \<not> acceptsChildren d)"

definition absorb :: "token \<Rightarrow> frame \<Rightarrow> frame" where
  "absorb tok f =
     f\<lparr>frameContent := frameContent f @ tokenMarkup tok,
       frameMarkup := frameMarkup f @ tokenMarkup tok\<rparr>"

definition noteMarkup :: "string \<Rightarrow> frame list \<Rightarrow> frame list" where
  "noteMarkup markup stack =
     (case stack of [] \<Rightarrow> [] | f # rest \<Rightarrow> f\<lparr>frameMarkup := frameMarkup f @ markup\<rparr> # rest)"

definition isWhitespace :: "string \<Rightarrow> bool" where
  "isWhitespace s \<longleftrightarrow> (\<forall>c \<in> set s. c \<in> set [CHR '' '', CHR 0x09, CHR 0x0A, CHR 0x0D])"

text \<open>
  Modelled from the spec: one token, met where structure is read (at top level or inside
  a structural element). An opening tag opens an element. A self-closing tag produces a
  childless node. Text is ignored when it is whitespace only; otherwise it is coerced
  into an implicit text child where the schema allows one, and ignored where it does
  not.
\<close>

definition structuralToken ::
  "schema \<Rightarrow> misplaced \<Rightarrow> token \<Rightarrow> frame list \<times> EditorNode list \<Rightarrow>
   frame list \<times> EditorNode list" where
  "structuralToken schema policy tok st =
     (case st of (stack, roots) \<Rightarrow>
        (case tok of
           OpenTag name attrs markup \<Rightarrow>
             (\<lparr>frameType = name, frameProps = attrs, frameChildren = [], frameContent = [],
               frameMarkup = markup\<rparr> # stack, roots)
         | SelfClosingTag name attrs markup \<Rightarrow>
             attach schema policy
               (makeNode schema \<lparr>frameType = name, frameProps = attrs, frameChildren = [],
                                 frameContent = [], frameMarkup = markup\<rparr>)
               markup (stack, roots)
         | TextToken s \<Rightarrow>
             (case stack of
                [] \<Rightarrow> (stack, roots)
              | f # rest \<Rightarrow>
                  if \<not> isWhitespace s \<and> canContain schema (frameType f) ''mj-text''
                  then attach schema policy
                         (makeNode schema \<lparr>frameType = ''mj-text'', frameProps = [],
                                           frameChildren = [], frameContent = s, frameMarkup = s\<rparr>)
                         s (stack, roots)
                  else (noteMarkup s stack, roots))
         | CloseTag name markup \<Rightarrow> (noteMarkup markup stack, roots)))"

text \<open>
  Modelled from the spec: one token. A closing tag with a match in the stack closes all
  intervening entries and the match; a stray closing tag is ignored. Any other token,
  and a stray closing tag too, belongs to the content of the element on top when that
  element is not structural.
\<close>

definition parseToken ::
  "schema \<Rightarrow> misplaced \<Rightarrow> frame list \<times> EditorNode list \<Rightarrow> token \<Rightarrow>
   frame list \<times> EditorNode list" where
  "parseToken schema policy st tok =
     (case st of (stack, roots) \<Rightarrow>
        (case (case tok of CloseTag name markup \<Rightarrow> findOpen name stack | _ \<Rightarrow> None) of
           Some k \<Rightarrow>
             (case closeFrames schema policy k (stack, roots) of (stack', roots') \<Rightarrow>
                closeTop schema policy (noteMarkup (tokenMarkup tok) stack', roots'))
         | None \<Rightarrow>
             (case stack of
                f # rest \<Rightarrow>
                  if absorbs schema f then (absorb tok f # rest, roots)
                  else structuralToken schema policy tok (stack, roots)
              | [] \<Rightarrow> structuralToken schema policy tok (stack, roots))))"

text \<open>
  Modelled from the spec: the whole token stream; elements still open at the end are
  closed implicitly. The result is the list of top-level nodes.
\<close>

definition parseTokens :: "schema \<Rightarrow> misplaced \<Rightarrow> token list \<Rightarrow> EditorNode list" where
  "parseTokens schema policy toks =
     (case foldl (parseToken schema policy) ([], []) toks of (stack, roots) \<Rightarrow>
        snd (closeFrames schema policy (length stack) (stack, roots)))"

text \<open>
  Modelled from the spec: \<^verbatim>\<open>parseMjmlToNode\<close> gives a parse error when the text cannot
  be tokenized; otherwise the first top-level node, numbered by \<^verbatim>\<open>generateId\<close> node by node (in the traversal order of
  \<open>cloneNode\<close>), or \<^verbatim>\<open>null\<close> (\<open>None\<close>, the case the caller tests with \<^verbatim>\<open>if (node)\<close>) when
  there is no element at all. The counter of \<^verbatim>\<open>generateId\<close> is threaded through.
\<close>

definition parseMjmlToNode ::
  "schema \<Rightarrow> misplaced \<Rightarrow> (string \<Rightarrow> string + token list) \<Rightarrow> string \<Rightarrow> nat \<Rightarrow>
   (string + EditorNode option) \<times> nat" where
  "parseMjmlToNode schema policy tokenize s next =
     (case tokenize s of
        Inl message \<Rightarrow> (Inl message, next)
      | Inr toks \<Rightarrow>
          (case parseTokens schema policy toks of
             [] \<Rightarrow> (Inr None, next)
           | root # others \<Rightarrow>
               (case cloneNode root next of (t, next') \<Rightarrow> (Inr (Some t), next'))))"

subsection \<open>Containment\<close>

text \<open>
  All nodes of a tree, and the containment invariant: every child is allowed under its
  parent's type by the schema, or is a raw passthrough node.
\<close>

fun allNodes :: "EditorNode \<Rightarrow> EditorNode list" where
  "allNodes (EditorNode i t p cs c) = EditorNode i t p cs c # concat (map allNodes cs)"

fun wellContained :: "schema \<Rightarrow> EditorNode \<Rightarrow> bool" where
  "wellContained schema (EditorNode i t p cs c) \<longleftrightarrow>
     (\<forall>ch \<in> set cs. (canContain schema t (nodeType ch) \<or> isRaw ch) \<and> wellContained schema ch)"

definition frameOk :: "schema \<Rightarrow> frame \<Rightarrow> bool" where
  "frameOk schema f \<longleftrightarrow>
     (\<forall>ch \<in> set (frameChildren f).
        (canContain schema (frameType f) (nodeType ch) \<or> isRaw ch) \<and> wellContained schema ch)"

definition stateOk :: "schema \<Rightarrow> frame list \<times> EditorNode list \<Rightarrow> bool" where
  "stateOk schema st \<longleftrightarrow>
     (\<forall>f \<in> set (fst st). frameOk schema f) \<and> (\<forall>r \<in> set (snd st). wellContained schema r)"

subsection \<open>A schema and a tokenizer for the examples\<close>

text \<open>
  A small schema with the containment rules the specification names: the root holds the
  body, the body sections, a section columns, and a column content leaves.
\<close>

definition structural :: "string list \<Rightarrow> componentDefinition" where
  "structural kinds =
     \<lparr>defaultProps = [], acceptsChildren = True, childTypes = kinds,
      defaultChildren = [], defaultContent = None\<rparr>"

definition exampleSchema :: schema where
  "exampleSchema =
     map_of
       [(''mjml'', structural [''mj-body'']),
        (''mj-body'', structural [''mj-section'']),
        (''mj-section'', structural [''mj-column'']),
        (''mj-column'', structural [''mj-text'', ''mj-image'', ''mj-social'', ''mj-raw'']),
        (''mj-text'',
           \<lparr>defaultProps = [(''font-size'', ''13px'')], acceptsChildren = False, childTypes = [],
            defaultChildren = [], defaultContent = Some ''Text''\<rparr>),
        (''mj-raw'',
           \<lparr>defaultProps = [], acceptsChildren = False, childTypes = [],
            defaultChildren = [], defaultContent = None\<rparr>)]"

text \<open>
  A tokenizer that knows tags without attributes, and text. A \<^verbatim>\<open><\<close> without its \<^verbatim>\<open>>\<close>
  is a parse error.
\<close>

definition tagToken :: "string \<Rightarrow> token" where
  "tagToken inside =
     (let markup = ''<'' @ inside @ ''>'' in
      if take 1 inside = ''/'' then CloseTag (drop 1 inside) markup
      else if inside \<noteq> [] \<and> last inside = CHR ''/''
      then SelfClosingTag (takeWhile isNameChar inside) [] markup
      else OpenTag (takeWhile isNameChar inside) [] markup)"

fun scanText :: "string \<Rightarrow> string \<Rightarrow> string + token list"
  and scanTag :: "string \<Rightarrow> string \<Rightarrow> string + token list" where
  "scanText acc [] = Inr (if acc = [] then [] else [TextToken acc])"
| "scanText acc (c # cs) =
     (if c = CHR ''<''
      then (case scanTag [] cs of
              Inl message \<Rightarrow> Inl message
            | Inr toks \<Rightarrow> Inr ((if acc = [] then [] else [TextToken acc]) @ toks))
      else scanText (acc @ [c]) cs)"
| "scanTag acc [] = Inl ''Unterminated tag''"
| "scanTag acc (c # cs) =
     (if c = CHR ''>''
      then (case scanText [] cs of
              Inl message \<Rightarrow> Inl message
            | Inr toks \<Rightarrow> Inr (tagToken acc # toks))
      else scanTag (acc @ [c]) cs)"

definition tokenizeTags :: "string \<Rightarrow> string + token list" where
  "tokenizeTags s = scanText [] s"

text \<open>The scenario of a section nested inside a column.\<close>

definition sectionInColumn :: string where
  "sectionInColumn = ''<mj-column><mj-section>x</mj-section></mj-column>''"

text \<open>The tokens of the scenario.\<close>

definition sectionInColumnTokens :: "token list" where
  "sectionInColumnTokens =
     [OpenTag ''mj-column'' [] ''<mj-column>'', OpenTag ''mj-section'' [] ''<mj-section>'',
      TextToken ''x'', CloseTag ''mj-section'' ''</mj-section>'',
      CloseTag ''mj-column'' ''</mj-column>'']"

text \<open>
  The tree builder has started when an element is open or a top-level node is finished.
\<close>

definition started :: "frame list \<times> EditorNode list \<Rightarrow> bool" where
  "started st \<longleftrightarrow> fst st \<noteq> [] \<or> snd st \<noteq> []"

section \<open>Properties of the locked-region test\<close>

lemma rangeInRegionBox_within:
  "rangeInRegionBox rng region \<Longrightarrow> rangeWithinRegion rng region"
  unfolding rangeInRegionBox_def rangeWithinRegion_def positionInRegion_def by auto

lemma ordered_range_within:
  assumes "startLineNumber rng < endLineNumber rng \<or>
           (startLineNumber rng = endLineNumber rng \<and> rangeStartColumn rng \<le> rangeEndColumn rng)"
    and "startLine region \<le> startLineNumber rng" and "endLineNumber rng \<le> endLine region"
    and "startColumn region \<le> rangeStartColumn rng" and "rangeEndColumn rng \<le> endColumn region"
  shows "rangeWithinRegion rng region"
  using assms unfolding rangeWithinRegion_def positionInRegion_def by auto

lemma isRangeInLockedRegion_iff:
  "isRangeInLockedRegion rng regions \<longleftrightarrow>
     (\<exists>region \<in> set regions.
        rangeStartsBeforeRegionEnds rng region \<and> rangeEndsAfterRegionStarts rng region)"
  by (induction regions) auto

lemma within_overlaps:
  "rangeWithinRegion rng region \<Longrightarrow>
     rangeStartsBeforeRegionEnds rng region \<and> rangeEndsAfterRegionStarts rng region"
  unfolding rangeWithinRegion_def positionInRegion_def
    rangeStartsBeforeRegionEnds_def rangeEndsAfterRegionStarts_def
  by auto

lemma before_region_no_overlap:
  "endLineNumber rng < startLine region \<Longrightarrow> \<not> rangeEndsAfterRegionStarts rng region"
  unfolding rangeEndsAfterRegionStarts_def by auto

lemma after_region_no_overlap:
  "endLine region < startLineNumber rng \<Longrightarrow> \<not> rangeStartsBeforeRegionEnds rng region"
  unfolding rangeStartsBeforeRegionEnds_def by auto

text \<open>
  Claim C9. For every edit range and every list of locked regions,
  \<^verbatim>\<open>isRangeInLockedRegion\<close> returns true whenever the range lies entirely within some
  region of the list, and returns false whenever the lines of the range are strictly
  before the start line of every region, or strictly after the end line of every region.
  Lying within a region is \<open>rangeWithinRegion\<close>, the weakest of the readings above: by
  \<open>rangeInRegionBox_within\<close> and \<open>ordered_range_within\<close> the others imply it.
\<close>

theorem isRangeInLockedRegion_within_and_outside:
  "((\<exists>region \<in> set regions. rangeWithinRegion rng region)
      \<longrightarrow> isRangeInLockedRegion rng regions) \<and>
   ((\<forall>region \<in> set regions.
        startLineNumber rng < startLine region \<and> endLineNumber rng < startLine region)
      \<longrightarrow> \<not> isRangeInLockedRegion rng regions) \<and>
   ((\<forall>region \<in> set regions.
        endLine region < startLineNumber rng \<and> endLine region < endLineNumber rng)
      \<longrightarrow> \<not> isRangeInLockedRegion rng regions)"
proof (intro conjI impI)
  assume "\<exists>region \<in> set regions. rangeWithinRegion rng region"
  then show "isRangeInLockedRegion rng regions"
    unfolding isRangeInLockedRegion_iff using within_overlaps by blast
next
  assume "\<forall>region \<in> set regions.
    startLineNumber rng < startLine region \<and> endLineNumber rng < startLine region"
  then show "\<not> isRangeInLockedRegion rng regions"
    unfolding isRangeInLockedRegion_iff using before_region_no_overlap by blast
next
  assume "\<forall>region \<in> set regions.
    endLine region < startLineNumber rng \<and> endLine region < endLineNumber rng"
  then show "\<not> isRangeInLockedRegion rng regions"
    unfolding isRangeInLockedRegion_iff using after_region_no_overlap by blast
qed

theorem isRangeInLockedRegion_within_and_outside_witness:
  "isRangeInLockedRegion
     \<lparr>startLineNumber = 4, rangeStartColumn = 2, endLineNumber = 4, rangeEndColumn = 5\<rparr>
     [\<lparr>startLine = 3, endLine = 5, startColumn = 1, endColumn = 10\<rparr>] \<and>
   \<not> isRangeInLockedRegion
     \<lparr>startLineNumber = 1, rangeStartColumn = 1, endLineNumber = 2, rangeEndColumn = 4\<rparr>
     [\<lparr>startLine = 3, endLine = 5, startColumn = 1, endColumn = 10\<rparr>] \<and>
   \<not> isRangeInLockedRegion
     \<lparr>startLineNumber = 7, rangeStartColumn = 1, endLineNumber = 8, rangeEndColumn = 1\<rparr>
     [\<lparr>startLine = 3, endLine = 5, startColumn = 1, endColumn = 10\<rparr>]"
  using
    isRangeInLockedRegion_within_and_outside
      [of "[\<lparr>startLine = 3, endLine = 5, startColumn = 1, endColumn = 10\<rparr>]"
          "\<lparr>startLineNumber = 4, rangeStartColumn = 2, endLineNumber = 4, rangeEndColumn = 5\<rparr>"]
    isRangeInLockedRegion_within_and_outside
      [of "[\<lparr>startLine = 3, endLine = 5, startColumn = 1, endColumn = 10\<rparr>]"
          "\<lparr>startLineNumber = 1, rangeStartColumn = 1, endLineNumber = 2, rangeEndColumn = 4\<rparr>"]
    isRangeInLockedRegion_within_and_outside
      [of "[\<lparr>startLine = 3, endLine = 5, startColumn = 1, endColumn = 10\<rparr>]"
          "\<lparr>startLineNumber = 7, rangeStartColumn = 1, endLineNumber = 8, rangeEndColumn = 1\<rparr>"]
  by (simp add: rangeWithinRegion_def positionInRegion_def)

section \<open>Properties of the search for locked regions\<close>

lemma searchDown_miss:
  "(\<forall>j < n. tagName (st ! j) \<noteq> name) \<Longrightarrow> searchDown st name n = None"
  by (induction n) auto

lemma searchDown_hit:
  "j < n \<Longrightarrow> tagName (st ! j) = name \<Longrightarrow> (\<forall>k. j < k \<and> k < n \<longrightarrow> tagName (st ! k) \<noteq> name)
   \<Longrightarrow> searchDown st name n = Some j"
proof (induction n)
  case 0
  then show ?case by simp
next
  case (Suc n)
  show ?case
  proof (cases "j = n")
    case True
    then show ?thesis using Suc.prems by simp
  next
    case False
    then have "j < n" using Suc.prems by simp
    moreover have "tagName (st ! n) \<noteq> name" using Suc.prems \<open>j < n\<close> by simp
    ultimately show ?thesis using Suc by simp
  qed
qed

lemma nestingSearch_searchDown:
  "n \<le> length st \<Longrightarrow> nestingSearch (map tagName st) name n = searchDown st name n"
  by (induction n) auto

lemma searchDown_absent:
  assumes "name \<notin> tagName ` set st"
  shows "searchDown st name (length st) = None"
  using assms by (intro searchDown_miss) (auto simp: image_iff)

lemma searchDown_split:
  assumes "st = lower @ entry # upper" and "tagName entry = name"
    and "name \<notin> tagName ` set upper"
  shows "searchDown st name (length st) = Some (length lower)"
proof (rule searchDown_hit)
  show "length lower < length st" using assms(1) by simp
  show "tagName (st ! length lower) = name" using assms(1,2) by simp
  show "\<forall>k. length lower < k \<and> k < length st \<longrightarrow> tagName (st ! k) \<noteq> name"
  proof (intro allI impI)
    fix k assume k: "length lower < k \<and> k < length st"
    then have "st ! k = upper ! (k - Suc (length lower))"
      using assms(1) by (simp add: nth_append nth_Cons')
    moreover have "k - Suc (length lower) < length upper" using k assms(1) by auto
    ultimately have "st ! k \<in> set upper" by simp
    then show "tagName (st ! k) \<noteq> name" using assms(3) by auto
  qed
qed

text \<open>
  Claim C2, as amended. The specification's recovery policy for a closing tag searches
  the stack of open tags downward and, on a hit, closes the entry found and all entries
  above it; a closing tag without a hit is ignored (\<open>nestingStackClose\<close>).
  \<^verbatim>\<open>findLockedRegions\<close> searches its stack of locked tags in the same way and ignores a
  closing tag without a hit, but on a hit it removes the entry found alone and emits
  the region of that entry: the entries above it stay open. The two policies leave the
  same stack when the hit is the top of the stack, or when there is no hit.
\<close>

theorem closeLockedTag_removes_only_the_match:
  "(toLowerCase match1 \<notin> tagName ` set lockedStack \<longrightarrow>
      closeLockedTag lineNumber lineLength (regions, lockedStack) match1 = (regions, lockedStack) \<and>
      nestingStackClose (map tagName lockedStack) (toLowerCase match1) = map tagName lockedStack) \<and>
   (lockedStack = lower @ entry # upper \<and> tagName entry = toLowerCase match1 \<and>
    toLowerCase match1 \<notin> tagName ` set upper \<longrightarrow>
      closeLockedTag lineNumber lineLength (regions, lockedStack) match1 =
        (regions @ [\<lparr>startLine = tagStartLine entry, endLine = lineNumber,
                      startColumn = 1, endColumn = int lineLength + 1\<rparr>],
         lower @ upper) \<and>
      nestingStackClose (map tagName lockedStack) (toLowerCase match1) = map tagName lower)"
proof (intro conjI impI)
  assume a: "toLowerCase match1 \<notin> tagName ` set lockedStack"
  from searchDown_absent[OF a]
  show "closeLockedTag lineNumber lineLength (regions, lockedStack) match1 = (regions, lockedStack)"
    by (simp add: closeLockedTag_def)
  from searchDown_absent[OF a]
  show "nestingStackClose (map tagName lockedStack) (toLowerCase match1) = map tagName lockedStack"
    using nestingSearch_searchDown[of "length lockedStack" lockedStack "toLowerCase match1"]
    by (simp add: nestingStackClose_def)
next
  assume a: "lockedStack = lower @ entry # upper \<and> tagName entry = toLowerCase match1 \<and>
    toLowerCase match1 \<notin> tagName ` set upper"
  then have s: "searchDown lockedStack (toLowerCase match1) (length lockedStack) = Some (length lower)"
    using searchDown_split by blast
  show "closeLockedTag lineNumber lineLength (regions, lockedStack) match1 =
        (regions @ [\<lparr>startLine = tagStartLine entry, endLine = lineNumber,
                      startColumn = 1, endColumn = int lineLength + 1\<rparr>],
         lower @ upper)"
    using s a by (simp add: closeLockedTag_def)
  show "nestingStackClose (map tagName lockedStack) (toLowerCase match1) = map tagName lower"
    using s a nestingSearch_searchDown[of "length lockedStack" lockedStack "toLowerCase match1"]
    by (simp add: nestingStackClose_def)
qed

theorem closeLockedTag_removes_only_the_match_witness:
  "closeLockedTag 3 13
     ([], [\<lparr>tagName = ''mj-section'', tagStartLine = 1, tagStartColumn = 1\<rparr>,
           \<lparr>tagName = ''mj-column'', tagStartLine = 2, tagStartColumn = 1\<rparr>]) ''mj-section'' =
     ([\<lparr>startLine = 1, endLine = 3, startColumn = 1, endColumn = 14\<rparr>],
      [\<lparr>tagName = ''mj-column'', tagStartLine = 2, tagStartColumn = 1\<rparr>]) \<and>
   nestingStackClose [''mj-section'', ''mj-column''] ''mj-section'' = [] \<and>
   closeLockedTag 3 10
     ([], [\<lparr>tagName = ''mj-section'', tagStartLine = 1, tagStartColumn = 1\<rparr>,
           \<lparr>tagName = ''mj-column'', tagStartLine = 2, tagStartColumn = 1\<rparr>]) ''mj-text'' =
     ([], [\<lparr>tagName = ''mj-section'', tagStartLine = 1, tagStartColumn = 1\<rparr>,
           \<lparr>tagName = ''mj-column'', tagStartLine = 2, tagStartColumn = 1\<rparr>])"
  using
    closeLockedTag_removes_only_the_match
      [where ?match1.0 = "''mj-section''" and lower = "[]"
         and entry = "\<lparr>tagName = ''mj-section'', tagStartLine = 1, tagStartColumn = 1\<rparr>"
         and upper = "[\<lparr>tagName = ''mj-column'', tagStartLine = 2, tagStartColumn = 1\<rparr>]"
         and lockedStack = "[\<lparr>tagName = ''mj-section'', tagStartLine = 1, tagStartColumn = 1\<rparr>,
                            \<lparr>tagName = ''mj-column'', tagStartLine = 2, tagStartColumn = 1\<rparr>]"
         and lineNumber = 3 and lineLength = 13 and regions = "[]"]
    closeLockedTag_removes_only_the_match
      [where ?match1.0 = "''mj-text''" and lower = "[]"
         and entry = "\<lparr>tagName = ''mj-section'', tagStartLine = 1, tagStartColumn = 1\<rparr>"
         and upper = "[]"
         and lockedStack = "[\<lparr>tagName = ''mj-section'', tagStartLine = 1, tagStartColumn = 1\<rparr>,
                            \<lparr>tagName = ''mj-column'', tagStartLine = 2, tagStartColumn = 1\<rparr>]"
         and lineNumber = 3 and lineLength = 10 and regions = "[]"]
  by (simp add: toLowerCase_def lowerChar_def)

text \<open>
  Claim C2, as the specification states it, fails on the four lines of
  \<open>crossedLockedTags\<close>. After the closing section tag on line 3 the stack of
  \<^verbatim>\<open>findLockedRegions\<close> still holds the column, where the nesting-stack policy has closed
  it together with the section; so the closing column tag on line 4, stray under the
  policy, ends a second region there.
\<close>

theorem findLockedRegions_crossed_tags_counterexample:
  "map tagName (snd (scanLines (joinLines (take 3 crossedLockedTags)))) \<noteq>
     nestingStackClose (map tagName (snd (scanLines (joinLines (take 2 crossedLockedTags)))))
       ''mj-section'' \<and>
   findLockedRegions (joinLines crossedLockedTags) =
     [\<lparr>startLine = 1, endLine = 3, startColumn = 1, endColumn = 14\<rparr>,
      \<lparr>startLine = 2, endLine = 4, startColumn = 1, endColumn = 13\<rparr>]"
  by code_simp

section \<open>Properties of the code editor's synchronisation\<close>

text \<open>
  Claim C3. For every edited markup string in the code editor: if \<^verbatim>\<open>parseMjmlToNode\<close>
  throws a parse error, then both sync paths (the callback of the debounced auto-sync
  effect, and \<^verbatim>\<open>handleSync\<close>) leave the document unchanged, do not call
  \<^verbatim>\<open>setDocument\<close>, and record the message of the thrown error for display; if parsing
  succeeds with a tree, \<^verbatim>\<open>setDocument\<close> is called with that tree, the error is cleared,
  and \<^verbatim>\<open>handleSync\<close> also clears the edited code, which the auto-sync path keeps.
\<close>

theorem sync_paths_keep_or_replace_document:
  assumes "editedCode s = Some c"
  shows "(parse c = Inl message \<longrightarrow>
           autoSyncEffect generateMjml s = Some (500, c) \<and>
           document (autoSyncCallback parse c s) = document s \<and>
           setDocumentCalls (autoSyncCallback parse c s) = setDocumentCalls s \<and>
           error (autoSyncCallback parse c s) = Some message \<and>
           document (handleSync parse generateMjml s) = document s \<and>
           setDocumentCalls (handleSync parse generateMjml s) = setDocumentCalls s \<and>
           error (handleSync parse generateMjml s) = Some message) \<and>
         (parse c = Inr (Some node) \<longrightarrow>
           autoSyncEffect generateMjml s = Some (500, c) \<and>
           document (autoSyncCallback parse c s) = node \<and>
           setDocumentCalls (autoSyncCallback parse c s) = setDocumentCalls s @ [node] \<and>
           error (autoSyncCallback parse c s) = None \<and>
           editedCode (autoSyncCallback parse c s) = Some c \<and>
           document (handleSync parse generateMjml s) = node \<and>
           setDocumentCalls (handleSync parse generateMjml s) = setDocumentCalls s @ [node] \<and>
           error (handleSync parse generateMjml s) = None \<and>
           editedCode (handleSync parse generateMjml s) = None)"
  using assms
  by (simp add: autoSyncCallback_def handleSync_def autoSyncEffect_def isDirty_def code_def
      setDocument_def)

theorem sync_paths_keep_or_replace_document_witness:
  "editedCode (editorAtRest\<lparr>editedCode := Some ''<mjml''\<rparr>) = Some ''<mjml'' \<and>
   document (handleSync (\<lambda>c. Inl ''Unclosed tag'') (\<lambda>d h. ''<mjml></mjml>'')
      (editorAtRest\<lparr>editedCode := Some ''<mjml''\<rparr>)) = EditorNode 0 ''mjml'' [] [] None \<and>
   error (autoSyncCallback (\<lambda>c. Inl ''Unclosed tag'') ''<mjml''
      (editorAtRest\<lparr>editedCode := Some ''<mjml''\<rparr>)) = Some ''Unclosed tag'' \<and>
   document (handleSync (\<lambda>c. Inr (Some (EditorNode 7 ''mjml'' [] [] None))) (\<lambda>d h. ''<mjml></mjml>'')
      (editorAtRest\<lparr>editedCode := Some ''<mjml''\<rparr>)) = EditorNode 7 ''mjml'' [] [] None"
  using
    sync_paths_keep_or_replace_document
      [of "editorAtRest\<lparr>editedCode := Some ''<mjml''\<rparr>" "''<mjml''" "\<lambda>c. Inl ''Unclosed tag''"
          "''Unclosed tag''" "\<lambda>d h. ''<mjml></mjml>''" "EditorNode 7 ''mjml'' [] [] None"]
    sync_paths_keep_or_replace_document
      [of "editorAtRest\<lparr>editedCode := Some ''<mjml''\<rparr>" "''<mjml''"
          "\<lambda>c. Inr (Some (EditorNode 7 ''mjml'' [] [] None))"
          "''Unclosed tag''" "\<lambda>d h. ''<mjml></mjml>''" "EditorNode 7 ''mjml'' [] [] None"]
  by (simp add: editorAtRest_def)

subsection \<open>The debounce\<close>



lemma parseCalls_autoSync [simp]:
  "parseCalls (autoSyncCallback p c s) = parseCalls s"
  "timer (autoSyncCallback p c s) = timer s"
  "now (autoSyncCallback p c s) = now s"
  "editedCode (autoSyncCallback p c s) = editedCode s"
  by (auto simp: autoSyncCallback_def setDocument_def split: sum.splits option.splits)


lemma step_Wait_idle:
  assumes "timer s = None"
  shows "step p g (Wait d) s = s\<lparr>now := now s + d\<rparr>"
  using assms by simp



lemma code_now [simp]: "code g (s\<lparr>now := t\<rparr>) = code g s"
  by (simp add: code_def split: option.splits)



text \<open>
  Three keystrokes 100 ms apart and then a pause: one parse, of the last text, 500 ms
  after the last keystroke.
\<close>

lemma three_keystrokes_one_parse:
  "parseCalls (run (\<lambda>c. Inr None) (\<lambda>d h. ''<mjml></mjml>'')
      [Change ''a'', Wait 100, Change ''ab'', Wait 100, Change ''abc'', Wait 600] editorAtRest)
   = [(700, ''abc'')]"
  by (simp add: editorAtRest_def rerender_def handleChange_def code_def isDirty_def
      autoSyncEffect_def autoSyncCallback_def)



section \<open>Properties of the email-sending route\<close>

lemma getProp_optProp:
  "body \<noteq> JNull \<Longrightarrow> body \<noteq> JUndefined \<Longrightarrow> getProp body k = Inr (optProp body k)"
  by (cases body) simp_all

lemma andThen_value: "andThen (Inr x, []) f = f x"
  by (cases "f x") (simp add: andThen_def)

lemma tryPOST_body:
  assumes "body \<noteq> JNull" and "body \<noteq> JUndefined"
  shows "tryPOST w (Inr body) =
     (if \<not> truthy (optProp (optProp body ''email'') ''to'') \<or>
         \<not> truthy (optProp (optProp body ''email'') ''subject'') \<or>
         \<not> truthy (optProp (optProp body ''email'') ''html'')
      then ret (errorResponse ''Missing email content (to, subject, html)'' 400)
      else if optProp body ''mode'' = JStr ''resend'' then
        (if \<not> truthy (optProp body ''resendApiKey'')
         then ret (errorResponse ''Missing Resend API Key'' 400)
         else sendWithResend w body (optProp body ''email'') (optProp body ''resendApiKey''))
      else sendWithNodemailer w body (optProp body ''email'') (optProp body ''mode''))"
  unfolding tryPOST_def
  by (simp add: getProp_optProp[OF assms] andThen_value)

text \<open>
  Claim C10, as amended. For every request whose body is a JSON value other than
  \<^verbatim>\<open>null\<close>: if the body lacks \<^verbatim>\<open>email.to\<close>, \<^verbatim>\<open>email.subject\<close> or \<^verbatim>\<open>email.html\<close> (the
  property reads as \<^verbatim>\<open>undefined\<close>, or as any other value that is not truthy), the handler
  responds with status 400 and the message "Missing email content (to, subject, html)"
  without making any call; likewise a body with mode \<^verbatim>\<open>"resend"\<close> and no
  \<^verbatim>\<open>resendApiKey\<close> gets status 400 without any call, with the message
  "Missing Resend API Key" when the email content is there.
\<close>

theorem POST_rejects_incomplete_requests:
  assumes "body \<noteq> JNull" and "body \<noteq> JUndefined"
  shows "(\<not> truthy (optProp (optProp body ''email'') ''to'') \<or>
          \<not> truthy (optProp (optProp body ''email'') ''subject'') \<or>
          \<not> truthy (optProp (optProp body ''email'') ''html'') \<longrightarrow>
            POST w (Inr body) =
              (errorResponse ''Missing email content (to, subject, html)'' 400, [])) \<and>
         (optProp body ''mode'' = JStr ''resend'' \<and> \<not> truthy (optProp body ''resendApiKey'') \<longrightarrow>
            status (fst (POST w (Inr body))) = 400 \<and> snd (POST w (Inr body)) = [] \<and>
            (truthy (optProp (optProp body ''email'') ''to'') \<and>
             truthy (optProp (optProp body ''email'') ''subject'') \<and>
             truthy (optProp (optProp body ''email'') ''html'') \<longrightarrow>
               POST w (Inr body) = (errorResponse ''Missing Resend API Key'' 400, [])))"
  by (simp add: POST_def tryPOST_body[OF assms] ret_def errorResponse_def)

theorem POST_rejects_incomplete_requests_witness:
  "POST obligingWorld (Inr (JObj [(''mode'', JStr ''test'')])) =
     (errorResponse ''Missing email content (to, subject, html)'' 400, []) \<and>
   POST obligingWorld (Inr requestWithoutKey) = (errorResponse ''Missing Resend API Key'' 400, [])"
  using POST_rejects_incomplete_requests[of "JObj [(''mode'', JStr ''test'')]" obligingWorld]
    POST_rejects_incomplete_requests[of requestWithoutKey obligingWorld]
  by (simp add: requestWithoutKey_def)

text \<open>
  Claim C10, as stated for every request body, fails for the body \<^verbatim>\<open>null\<close>: it has no
  \<^verbatim>\<open>email.to\<close>, but reading \<^verbatim>\<open>body.email\<close> throws, and the \<^verbatim>\<open>catch\<close> block answers
  with status 500. No call is made in this case either.
\<close>

theorem POST_null_body_counterexample:
  "optProp (optProp JNull ''email'') ''to'' = JUndefined \<and>
   POST obligingWorld (Inr JNull) =
     (errorResponse ''Cannot read properties of null (reading email)'' 500, [])"
  by (simp add: POST_def tryPOST_def andThen_def obligingWorld_def)

section \<open>Properties of identifiers and cloning\<close>

text \<open>
  A clone made with the counter at \<open>n\<close> carries exactly the identifiers from \<open>n\<close> up to
  the counter after the call, in the order of the traversal, and is the source tree but
  for the identifiers. The same for a list of children.
\<close>

lemma clone_ids_shape:
  "(\<forall>t' n'. cloneNode t n = (t', n') \<longrightarrow>
      nodeIds t' = [n..<n'] \<and> n < n' \<and> withoutIds t' = withoutIds t)"
  "(\<forall>cs' n'. cloneChildren cs n = (cs', n') \<longrightarrow>
      concat (map nodeIds cs') = [n..<n'] \<and> n \<le> n' \<and> map withoutIds cs' = map withoutIds cs)"
proof (induction t n and cs n rule: cloneNode_cloneChildren.induct)
  case (1 i t p cs c n)
  show ?case
  proof (intro allI impI)
    fix t' n' assume a: "cloneNode (EditorNode i t p cs c) n = (t', n')"
    obtain cs' where c: "cloneChildren cs (Suc n) = (cs', n')" and t': "t' = EditorNode n t p cs' c"
      using a by (auto simp: generateId_def split: prod.splits)
    from 1[of n "Suc n"] c have ih: "concat (map nodeIds cs') = [Suc n..<n']" "Suc n \<le> n'"
      "map withoutIds cs' = map withoutIds cs"
      by (auto simp: generateId_def)
    show "nodeIds t' = [n..<n'] \<and> n < n' \<and> withoutIds t' = withoutIds (EditorNode i t p cs c)"
      using ih t' by (simp add: upt_conv_Cons)
  qed
next
  case (2 n)
  then show ?case by simp
next
  case (3 x xs n)
  show ?case
  proof (intro allI impI)
    fix cs' n' assume a: "cloneChildren (x # xs) n = (cs', n')"
    obtain x' n1 xs' where x: "cloneNode x n = (x', n1)" and xs: "cloneChildren xs n1 = (xs', n')"
      and cs': "cs' = x' # xs'"
      using a by (auto split: prod.splits)
    from 3(1) x have ih1: "nodeIds x' = [n..<n1]" "n < n1" "withoutIds x' = withoutIds x" by auto
    from 3(2)[OF x[symmetric]] xs have ih2: "concat (map nodeIds xs') = [n1..<n']" "n1 \<le> n'"
      "map withoutIds xs' = map withoutIds xs" by auto
    have "[n..<n1] @ [n1..<n'] = [n..<n']"
      using ih1(2) ih2(2) by (metis less_imp_le_nat le_add_diff_inverse upt_add_eq_append)
    then show "concat (map nodeIds cs') = [n..<n'] \<and> n \<le> n' \<and>
        map withoutIds cs' = map withoutIds (x # xs)"
      using ih1 ih2 cs' by simp
  qed
qed

lemma cloneNode_ids:
  assumes "cloneNode t n = (t', n')"
  shows "nodeIds t' = [n..<n']" and "n < n'" and "withoutIds t' = withoutIds t"
  using clone_ids_shape(1)[of t n] assms by auto

text \<open>
  Claim C4. For every source tree, a tree produced by \<^verbatim>\<open>cloneDocumentWithNewIds\<close> has a
  freshly generated identifier on the root and on every descendant (the values that
  \<^verbatim>\<open>generateId\<close> returned during the call, none of them issued before), no two nodes
  share an identifier, also across repeated calls on the same source tree, and
  attributes, content and child order are preserved exactly. Here \<open>n\<close> is the counter
  before the first call, \<open>n1\<close> after it, and \<open>m \<ge> n1\<close> the counter before a later call.
\<close>

theorem cloneDocumentWithNewIds_fresh_and_faithful:
  assumes "cloneDocumentWithNewIds root n = (t1, n1)"
    and "n1 \<le> m"
    and "cloneDocumentWithNewIds root m = (t2, n2)"
  shows "nodeIds t1 = [n..<n1] \<and> nodeIds t2 = [m..<n2] \<and>
         distinct (nodeIds t1 @ nodeIds t2) \<and>
         ((\<forall>i \<in> set (nodeIds root). i < n) \<longrightarrow>
            set (nodeIds root) \<inter> set (nodeIds t1 @ nodeIds t2) = {}) \<and>
         withoutIds t1 = withoutIds root \<and> withoutIds t2 = withoutIds root"
proof -
  note a = cloneNode_ids[OF assms(1)[unfolded cloneDocumentWithNewIds_def]]
  note b = cloneNode_ids[OF assms(3)[unfolded cloneDocumentWithNewIds_def]]
  have d: "distinct (nodeIds t1 @ nodeIds t2)"
    using a(1) b(1) assms(2) by auto
  have f: "(\<forall>i \<in> set (nodeIds root). i < n) \<longrightarrow>
      set (nodeIds root) \<inter> set (nodeIds t1 @ nodeIds t2) = {}"
    using a(1,2) b(1) assms(2) by fastforce
  show ?thesis
    using a(1,3) b(1,3) d f by blast
qed

theorem cloneDocumentWithNewIds_fresh_and_faithful_witness:
  "cloneDocumentWithNewIds starterTree 5 =
     (EditorNode 5 ''mjml'' []
        [EditorNode 6 ''mj-body'' [(''width'', ''600px'')]
           [EditorNode 7 ''mj-section'' []
              [EditorNode 8 ''mj-column'' [] [] None] None] None] None, 9) \<and>
   nodeIds (fst (cloneDocumentWithNewIds starterTree 9)) = [9..<13] \<and>
   distinct (nodeIds (fst (cloneDocumentWithNewIds starterTree 5)) @
             nodeIds (fst (cloneDocumentWithNewIds starterTree 9))) \<and>
   withoutIds (fst (cloneDocumentWithNewIds starterTree 9)) = withoutIds starterTree"
proof -
  have c1: "cloneDocumentWithNewIds starterTree 5 =
     (EditorNode 5 ''mjml'' []
        [EditorNode 6 ''mj-body'' [(''width'', ''600px'')]
           [EditorNode 7 ''mj-section'' []
              [EditorNode 8 ''mj-column'' [] [] None] None] None] None, 9)"
    by (simp add: cloneDocumentWithNewIds_def starterTree_def generateId_def)
  have c2: "cloneDocumentWithNewIds starterTree 9 =
     (fst (cloneDocumentWithNewIds starterTree 9), 13)"
    by (simp add: cloneDocumentWithNewIds_def starterTree_def generateId_def)
  from cloneDocumentWithNewIds_fresh_and_faithful[OF c1 order_refl c2] c1
  show ?thesis by simp
qed

section \<open>Properties of the parser\<close>

lemma wellContained_rawNode: "wellContained schema (rawNode markup)"
  by (simp add: rawNode_def)

lemma isRaw_rawNode: "isRaw (rawNode markup)"
  by (simp add: rawNode_def isRaw_def)

lemma wellContained_makeNode: "frameOk schema f \<Longrightarrow> wellContained schema (makeNode schema f)"
  by (auto simp: makeNode_def frameOk_def wellContained_rawNode split: option.splits)

lemma stateOk_attach:
  assumes "stateOk schema st" and "wellContained schema node"
  shows "stateOk schema (attach schema policy node markup st)"
proof (cases st)
  case (Pair stack roots)
  show ?thesis
  proof (cases stack)
    case Nil
    with Pair assms show ?thesis by (simp add: attach_def stateOk_def)
  next
    case (Cons f rest)
    with Pair assms show ?thesis
      by (cases policy)
         (auto simp: attach_def stateOk_def frameOk_def Let_def wellContained_rawNode isRaw_rawNode)
  qed
qed

lemma stateOk_closeTop: "stateOk schema st \<Longrightarrow> stateOk schema (closeTop schema policy st)"
proof (cases st)
  case (Pair stack roots)
  assume ok: "stateOk schema st"
  show ?thesis
  proof (cases stack)
    case Nil
    with Pair ok show ?thesis by (simp add: closeTop_def)
  next
    case (Cons f rest)
    have "stateOk schema (rest, roots)" using ok Pair Cons by (simp add: stateOk_def)
    moreover have "wellContained schema (makeNode schema f)"
      using ok Pair Cons by (simp add: stateOk_def wellContained_makeNode)
    ultimately show ?thesis using Pair Cons by (simp add: closeTop_def stateOk_attach)
  qed
qed

lemma stateOk_closeFrames:
  "stateOk schema st \<Longrightarrow> stateOk schema (closeFrames schema policy k st)"
  by (induction k arbitrary: st) (simp_all add: stateOk_closeTop)

lemma stateOk_noteMarkup:
  "stateOk schema (stack, roots) \<Longrightarrow> stateOk schema (noteMarkup markup stack, roots)"
  by (cases stack) (auto simp: noteMarkup_def stateOk_def frameOk_def)

lemma stateOk_absorb:
  "stateOk schema (f # rest, roots) \<Longrightarrow> stateOk schema (absorb tok f # rest, roots)"
  by (auto simp: absorb_def stateOk_def frameOk_def)

lemma frameOk_fresh:
  "frameOk schema \<lparr>frameType = name, frameProps = attrs, frameChildren = [], frameContent = s,
     frameMarkup = markup\<rparr>"
  by (simp add: frameOk_def)

lemma stateOk_structuralToken:
  assumes "stateOk schema st"
  shows "stateOk schema (structuralToken schema policy tok st)"
proof (cases st)
  case (Pair stack roots)
  show ?thesis
  proof (cases tok)
    case (OpenTag name attrs markup)
    with Pair assms show ?thesis
      by (simp add: structuralToken_def stateOk_def frameOk_fresh)
  next
    case (SelfClosingTag name attrs markup)
    with Pair assms show ?thesis
      by (simp add: structuralToken_def stateOk_attach wellContained_makeNode frameOk_fresh)
  next
    case (CloseTag name markup)
    with Pair assms show ?thesis
      by (simp add: structuralToken_def stateOk_noteMarkup)
  next
    case (TextToken s)
    with Pair assms show ?thesis
      by (cases stack)
         (simp_all add: structuralToken_def stateOk_attach wellContained_makeNode frameOk_fresh
            stateOk_noteMarkup)
  qed
qed

lemma parseToken_stray:
  assumes "(case tok of CloseTag name markup \<Rightarrow> findOpen name stack | _ \<Rightarrow> None) = None"
  shows "parseToken schema policy (stack, roots) tok =
     (case stack of
        f # rest \<Rightarrow>
          if absorbs schema f then (absorb tok f # rest, roots)
          else structuralToken schema policy tok (stack, roots)
      | [] \<Rightarrow> structuralToken schema policy tok (stack, roots))"
  using assms by (simp add: parseToken_def)

lemma parseToken_match:
  assumes "(case tok of CloseTag name markup \<Rightarrow> findOpen name stack | _ \<Rightarrow> None) = Some k"
  shows "parseToken schema policy (stack, roots) tok =
     (case closeFrames schema policy k (stack, roots) of (stack', roots') \<Rightarrow>
        closeTop schema policy (noteMarkup (tokenMarkup tok) stack', roots'))"
  using assms by (simp add: parseToken_def)

lemma stateOk_parseToken:
  assumes "stateOk schema st"
  shows "stateOk schema (parseToken schema policy st tok)"
proof (cases st)
  case (Pair stack roots)
  let ?hit = "case tok of CloseTag name markup \<Rightarrow> findOpen name stack | _ \<Rightarrow> None"
  show ?thesis
  proof (cases ?hit)
    case (Some k)
    obtain stack' roots' where c: "closeFrames schema policy k (stack, roots) = (stack', roots')"
      by (cases "closeFrames schema policy k (stack, roots)")
    have "stateOk schema (stack', roots')"
      using stateOk_closeFrames[OF assms, of policy k] Pair c by simp
    then have "stateOk schema (closeTop schema policy (noteMarkup (tokenMarkup tok) stack', roots'))"
      by (intro stateOk_closeTop stateOk_noteMarkup)
    then show ?thesis using Pair c by (simp add: parseToken_match[OF Some])
  next
    case None
    note eq = parseToken_stray[OF None, of schema policy roots]
    have ok: "stateOk schema (stack, roots)" using assms Pair by simp
    show ?thesis unfolding Pair eq using ok
      by (cases stack) (simp_all add: stateOk_structuralToken stateOk_absorb)
  qed
qed

lemma stateOk_foldl:
  "stateOk schema st \<Longrightarrow> stateOk schema (foldl (parseToken schema policy) st toks)"
  by (induction toks arbitrary: st) (simp_all add: stateOk_parseToken)

lemma parseTokens_wellContained:
  "r \<in> set (parseTokens schema policy toks) \<Longrightarrow> wellContained schema r"
proof -
  assume r: "r \<in> set (parseTokens schema policy toks)"
  obtain stack roots where f: "foldl (parseToken schema policy) ([], []) toks = (stack, roots)"
    by (cases "foldl (parseToken schema policy) ([], []) toks")
  have "stateOk schema ([], [])" by (simp add: stateOk_def)
  then have "stateOk schema (stack, roots)" using stateOk_foldl[of schema "([], [])" policy toks] f by simp
  then have "stateOk schema (closeFrames schema policy (length stack) (stack, roots))"
    by (rule stateOk_closeFrames)
  then show ?thesis using r f by (simp add: parseTokens_def stateOk_def)
qed

lemma wellContained_withoutIds:
  "wellContained schema (withoutIds t) = wellContained schema t"
proof (induction t)
  case (EditorNode i t p cs c)
  have ty: "\<And>ch. nodeType (withoutIds ch) = nodeType ch"
    by (case_tac ch) simp
  have raw: "\<And>ch. isRaw (withoutIds ch) = isRaw ch"
    by (simp add: isRaw_def ty)
  show ?case using EditorNode by (auto simp: ty raw)
qed

lemma wellContained_allNodes:
  "wellContained schema t \<Longrightarrow> node \<in> set (allNodes t) \<Longrightarrow> ch \<in> set (children node) \<Longrightarrow>
   canContain schema (nodeType node) (nodeType ch) \<or> isRaw ch"
proof (induction t)
  case (EditorNode i t p cs c)
  then show ?case by auto
qed

lemma attach_stack:
  "length (fst (attach schema policy node markup st)) = length (fst st)"
  by (cases st; cases "fst st"; cases policy) (auto simp: attach_def Let_def)

lemma started_attach: "started (attach schema policy node markup st)"
  by (cases st; cases "fst st"; cases policy) (auto simp: attach_def Let_def started_def)

lemma attach_roots:
  "snd st \<noteq> [] \<Longrightarrow> snd (attach schema policy node markup st) \<noteq> []"
  by (cases st; cases "fst st"; cases policy) (auto simp: attach_def Let_def)

lemma closeTop_stack:
  "length (fst (closeTop schema policy st)) = length (fst st) - 1"
  by (cases st; cases "fst st") (auto simp: closeTop_def attach_stack)

lemma started_closeTop: "started st \<Longrightarrow> started (closeTop schema policy st)"
proof (cases st)
  case (Pair stack roots)
  assume "started st"
  then show ?thesis using Pair
  proof (cases stack)
    case Nil
    then show ?thesis using Pair \<open>started st\<close> by (simp add: closeTop_def started_def)
  next
    case (Cons f rest)
    then show ?thesis using Pair by (simp add: closeTop_def started_attach)
  qed
qed

lemma closeFrames_stack:
  "length (fst (closeFrames schema policy k st)) = length (fst st) - k"
  by (induction k arbitrary: st) (simp_all add: closeTop_stack)

lemma started_closeFrames: "started st \<Longrightarrow> started (closeFrames schema policy k st)"
  by (induction k arbitrary: st) (simp_all add: started_closeTop)

lemma started_noteMarkup: "started (stack, roots) \<Longrightarrow> started (noteMarkup markup stack, roots)"
  by (cases stack) (auto simp: noteMarkup_def started_def)

lemma started_structuralToken:
  assumes "started st"
  shows "started (structuralToken schema policy tok st)"
proof (cases st)
  case (Pair stack roots)
  have n: "started (noteMarkup markup stack, roots)" for markup
    using assms Pair by (simp add: started_noteMarkup)
  show ?thesis
  proof (cases tok)
    case (OpenTag name attrs markup)
    then show ?thesis using Pair by (simp add: structuralToken_def started_def)
  next
    case (SelfClosingTag name attrs markup)
    then show ?thesis using Pair by (simp add: structuralToken_def started_attach)
  next
    case (CloseTag name markup)
    then show ?thesis using Pair n by (simp add: structuralToken_def)
  next
    case (TextToken s)
    then show ?thesis using Pair n assms
      by (cases stack) (simp_all add: structuralToken_def started_attach)
  qed
qed

lemma started_parseToken:
  assumes "started st"
  shows "started (parseToken schema policy st tok)"
proof (cases st)
  case (Pair stack roots)
  let ?hit = "case tok of CloseTag name markup \<Rightarrow> findOpen name stack | _ \<Rightarrow> None"
  show ?thesis
  proof (cases ?hit)
    case (Some k)
    obtain stack' roots' where c: "closeFrames schema policy k (stack, roots) = (stack', roots')"
      by (cases "closeFrames schema policy k (stack, roots)")
    have "started (stack', roots')"
      using started_closeFrames[OF assms, of schema policy k] Pair c by simp
    then have "started (closeTop schema policy (noteMarkup (tokenMarkup tok) stack', roots'))"
      by (intro started_closeTop started_noteMarkup)
    then show ?thesis using Pair c by (simp add: parseToken_match[OF Some])
  next
    case None
    note eq = parseToken_stray[OF None, of schema policy roots]
    have ok: "started (stack, roots)" using assms Pair by simp
    have ab: "started (absorb tok f # rest, roots)" for f rest
      by (simp add: started_def)
    show ?thesis unfolding Pair eq using ok
      by (cases stack) (simp_all add: started_structuralToken ab)
  qed
qed

lemma started_foldl:
  "started st \<Longrightarrow> started (foldl (parseToken schema policy) st toks)"
  by (induction toks arbitrary: st) (simp_all add: started_parseToken)

lemma parseTokens_OpenTag_nonempty:
  "parseTokens schema policy (OpenTag name attrs markup # toks) \<noteq> []"
proof -
  let ?first = "parseToken schema policy ([], []) (OpenTag name attrs markup)"
  have "started ?first"
    by (simp add: parseToken_def structuralToken_def started_def)
  then have st: "started (foldl (parseToken schema policy) ?first toks)"
    by (rule started_foldl)
  obtain stack roots where f: "foldl (parseToken schema policy) ?first toks = (stack, roots)"
    by (cases "foldl (parseToken schema policy) ?first toks")
  let ?final = "closeFrames schema policy (length stack) (stack, roots)"
  have "started ?final" using st f by (simp add: started_closeFrames)
  moreover have "fst ?final = []"
    using closeFrames_stack[of schema policy "length stack" "(stack, roots)"] by simp
  ultimately have "snd ?final \<noteq> []" by (simp add: started_def)
  then show ?thesis using f by (simp add: parseTokens_def)
qed

text \<open>
  Claim C5. For all nodes \<open>n\<close> in any tree produced by the parser, the type of the parent
  of \<open>n\<close> can contain the type of \<open>n\<close> by the schema, or \<open>n\<close> is a raw passthrough node
  preserving markup; in particular, parsing
  \<^verbatim>\<open><mj-column><mj-section>x</mj-section></mj-column>\<close>, where the schema does not allow a
  section inside a column, does not raise a parse error and does not leave a section as
  a child of a column. The scenario is stated for a tokenizer that splits the markup
  into its five tokens.
\<close>

theorem parser_keeps_containment:
  "(parseMjmlToNode schema policy tokenize s next = (Inr (Some t), next') \<longrightarrow>
      (\<forall>node \<in> set (allNodes t). \<forall>ch \<in> set (children node).
          canContain schema (nodeType node) (nodeType ch) \<or> isRaw ch)) \<and>
   (tokenize sectionInColumn = Inr sectionInColumnTokens \<and>
    \<not> canContain schema ''mj-column'' ''mj-section'' \<longrightarrow>
      (\<exists>t' next''. parseMjmlToNode schema policy tokenize sectionInColumn next = (Inr (Some t'), next'') \<and>
         (\<forall>node \<in> set (allNodes t'). nodeType node = ''mj-column'' \<longrightarrow>
            (\<forall>ch \<in> set (children node). nodeType ch \<noteq> ''mj-section''))))"
proof -
  have general: "\<forall>node \<in> set (allNodes u). \<forall>ch \<in> set (children node).
          canContain schema (nodeType node) (nodeType ch) \<or> isRaw ch"
    if p: "parseMjmlToNode schema policy tokenize z k = (Inr (Some u), k')" for z k u k'
  proof -
    from p obtain toks root others where tk: "tokenize z = Inr toks"
      and pt: "parseTokens schema policy toks = root # others"
      and cl: "cloneNode root k = (u, k')"
      by (auto simp: parseMjmlToNode_def split: sum.splits list.splits prod.splits)
    have "wellContained schema root"
      using parseTokens_wellContained[of root schema policy toks] pt by simp
    then have "wellContained schema (withoutIds root)" by (simp add: wellContained_withoutIds)
    then have "wellContained schema (withoutIds u)" using cloneNode_ids(3)[OF cl] by simp
    then have "wellContained schema u" by (simp add: wellContained_withoutIds)
    then show ?thesis using wellContained_allNodes by blast
  qed
  have scenario: "\<exists>t' next''. parseMjmlToNode schema policy tokenize sectionInColumn next = (Inr (Some t'), next'') \<and>
         (\<forall>node \<in> set (allNodes t'). nodeType node = ''mj-column'' \<longrightarrow>
            (\<forall>ch \<in> set (children node). nodeType ch \<noteq> ''mj-section''))"
    if tk: "tokenize sectionInColumn = Inr sectionInColumnTokens"
      and nc: "\<not> canContain schema ''mj-column'' ''mj-section''"
  proof -
    have "parseTokens schema policy sectionInColumnTokens \<noteq> []"
      unfolding sectionInColumnTokens_def by (rule parseTokens_OpenTag_nonempty)
    then obtain root others where pt: "parseTokens schema policy sectionInColumnTokens = root # others"
      by (cases "parseTokens schema policy sectionInColumnTokens") auto
    obtain t' k' where cl: "cloneNode root next = (t', k')" by (cases "cloneNode root next")
    have res: "parseMjmlToNode schema policy tokenize sectionInColumn next = (Inr (Some t'), k')"
      using tk pt cl by (simp add: parseMjmlToNode_def)
    have "\<forall>node \<in> set (allNodes t'). nodeType node = ''mj-column'' \<longrightarrow>
            (\<forall>ch \<in> set (children node). nodeType ch \<noteq> ''mj-section'')"
    proof (intro ballI impI)
      fix node ch
      assume node: "node \<in> set (allNodes t')" and col: "nodeType node = ''mj-column''"
        and ch: "ch \<in> set (children node)"
      from general[OF res] node ch
      have "canContain schema (nodeType node) (nodeType ch) \<or> isRaw ch" by blast
      then show "nodeType ch \<noteq> ''mj-section''"
        using nc col by (auto simp: isRaw_def)
    qed
    with res show ?thesis by blast
  qed
  show ?thesis using general scenario by blast
qed

theorem parser_keeps_containment_witness:
  "tokenizeTags sectionInColumn = Inr sectionInColumnTokens \<and>
   \<not> canContain exampleSchema ''mj-column'' ''mj-section'' \<and>
   parseMjmlToNode exampleSchema CoerceToRaw tokenizeTags sectionInColumn 10 =
     (Inr (Some (EditorNode 10 ''mj-column'' []
        [EditorNode 11 ''mj-raw'' [] [] (Some ''<mj-section>x</mj-section>'')] None)), 12) \<and>
   (canContain exampleSchema ''mj-column'' ''mj-raw'' \<or>
    isRaw (EditorNode 11 ''mj-raw'' [] [] (Some ''<mj-section>x</mj-section>'')))"
proof -
  let ?raw = "EditorNode 11 ''mj-raw'' [] [] (Some ''<mj-section>x</mj-section>'')"
  let ?column = "EditorNode 10 ''mj-column'' [] [?raw] None"
  have tk: "tokenizeTags sectionInColumn = Inr sectionInColumnTokens"
    by code_simp
  have nc: "\<not> canContain exampleSchema ''mj-column'' ''mj-section''"
    by code_simp
  have run: "parseMjmlToNode exampleSchema CoerceToRaw tokenizeTags sectionInColumn 10 =
      (Inr (Some ?column), 12)"
    by code_simp
  from parser_keeps_containment
    [of exampleSchema CoerceToRaw tokenizeTags sectionInColumn 10 ?column 12] run
  have "\<forall>node \<in> set (allNodes ?column). \<forall>ch \<in> set (children node).
      canContain exampleSchema (nodeType node) (nodeType ch) \<or> isRaw ch"
    by blast
  then have "canContain exampleSchema ''mj-column'' ''mj-raw'' \<or> isRaw ?raw"
    by simp
  with tk nc run show ?thesis by blast
qed

text \<open>
  Claim C7. For every markup string, two runs of \<^verbatim>\<open>parseMjmlToNode\<close> on it yield trees
  that are structurally equal (same types, attribute values, child order and content)
  but identity-distinct: every node identifier comes from \<^verbatim>\<open>generateId\<close>, is unique
  (no two nodes of the two trees share one), and is not derived from the content: the
  identifiers of a tree are the values of the counter from its start to its end. Here
  \<open>n\<close> and \<open>n1\<close> are the counter before and after the first run, and \<open>m \<ge> n1\<close> the counter
  before the second. A run that gives a parse error, or no tree, does so both times.
\<close>

theorem parse_twice_equal_but_distinct:
  assumes "parseMjmlToNode schema policy tokenize s n = (r1, n1)"
    and "n1 \<le> m"
    and "parseMjmlToNode schema policy tokenize s m = (r2, n2)"
  shows "(\<forall>t1. r1 = Inr (Some t1) \<longrightarrow>
            (\<exists>t2. r2 = Inr (Some t2) \<and> withoutIds t1 = withoutIds t2 \<and>
               nodeIds t1 = [n..<n1] \<and> nodeIds t2 = [m..<n2] \<and>
               distinct (nodeIds t1 @ nodeIds t2))) \<and>
         (r1 = Inr None \<longrightarrow> r2 = Inr None) \<and>
         (\<forall>message. r1 = Inl message \<longrightarrow> r2 = Inl message)"
proof (intro conjI allI impI)
  fix t1 assume r1: "r1 = Inr (Some t1)"
  from assms(1) r1 obtain toks root others where tk: "tokenize s = Inr toks"
    and pt: "parseTokens schema policy toks = root # others"
    and c1: "cloneNode root n = (t1, n1)"
    by (auto simp: parseMjmlToNode_def split: sum.splits list.splits prod.splits)
  obtain t2 k where c2: "cloneNode root m = (t2, k)" by (cases "cloneNode root m")
  with assms(3) tk pt have r2: "r2 = Inr (Some t2)" and k: "k = n2"
    by (auto simp: parseMjmlToNode_def)
  note a = cloneNode_ids[OF c1]
  note b = cloneNode_ids[OF c2[unfolded k]]
  have "distinct (nodeIds t1 @ nodeIds t2)" using a(1) b(1) assms(2) by auto
  then show "\<exists>t2. r2 = Inr (Some t2) \<and> withoutIds t1 = withoutIds t2 \<and>
               nodeIds t1 = [n..<n1] \<and> nodeIds t2 = [m..<n2] \<and>
               distinct (nodeIds t1 @ nodeIds t2)"
    using r2 a b by simp
next
  assume "r1 = Inr None"
  with assms(1,3) show "r2 = Inr None"
    by (auto simp: parseMjmlToNode_def split: sum.splits list.splits prod.splits)
next
  fix message assume "r1 = Inl message"
  with assms(1,3) show "r2 = Inl message"
    by (auto simp: parseMjmlToNode_def split: sum.splits list.splits prod.splits)
qed

theorem parse_twice_equal_but_distinct_witness:
  "parseMjmlToNode exampleSchema CoerceToRaw tokenizeTags sectionInColumn 10 =
     (Inr (Some (EditorNode 10 ''mj-column'' []
        [EditorNode 11 ''mj-raw'' [] [] (Some ''<mj-section>x</mj-section>'')] None)), 12) \<and>
   parseMjmlToNode exampleSchema CoerceToRaw tokenizeTags sectionInColumn 12 =
     (Inr (Some (EditorNode 12 ''mj-column'' []
        [EditorNode 13 ''mj-raw'' [] [] (Some ''<mj-section>x</mj-section>'')] None)), 14) \<and>
   (\<exists>t2. withoutIds (EditorNode 10 ''mj-column'' []
        [EditorNode 11 ''mj-raw'' [] [] (Some ''<mj-section>x</mj-section>'')] None) = withoutIds t2 \<and>
      nodeIds t2 = [12..<14])"
proof -
  let ?t1 = "EditorNode 10 ''mj-column'' []
        [EditorNode 11 ''mj-raw'' [] [] (Some ''<mj-section>x</mj-section>'')] None"
  let ?t2 = "EditorNode 12 ''mj-column'' []
        [EditorNode 13 ''mj-raw'' [] [] (Some ''<mj-section>x</mj-section>'')] None"
  have r1: "parseMjmlToNode exampleSchema CoerceToRaw tokenizeTags sectionInColumn 10 =
      (Inr (Some ?t1), 12)"
    by code_simp
  have r2: "parseMjmlToNode exampleSchema CoerceToRaw tokenizeTags sectionInColumn 12 =
      (Inr (Some ?t2), 14)"
    by code_simp
  from parse_twice_equal_but_distinct[OF r1 order_refl r2]
  have "\<exists>t2. withoutIds ?t1 = withoutIds t2 \<and> nodeIds t2 = [12..<14]"
    by blast
  with r1 r2 show ?thesis by blast
qed

subsection \<open>Closing tags in the tree builder\<close>

lemma types_attach:
  "map frameType (fst (attach schema policy node markup st)) = map frameType (fst st)"
  by (cases st; cases "fst st"; cases policy) (auto simp: attach_def Let_def)

lemma types_closeTop:
  "map frameType (fst (closeTop schema policy st)) = tl (map frameType (fst st))"
  by (cases st; cases "fst st") (auto simp: closeTop_def types_attach)

lemma types_closeFrames:
  "map frameType (fst (closeFrames schema policy k st)) = drop k (map frameType (fst st))"
proof (induction k arbitrary: st)
  case 0
  then show ?case by simp
next
  case (Suc k)
  show ?case by (simp add: Suc types_closeTop drop_Suc drop_tl)
qed

lemma types_noteMarkup: "map frameType (noteMarkup markup stack) = map frameType stack"
  by (cases stack) (simp_all add: noteMarkup_def)

lemma types_parseToken_CloseTag:
  "map frameType (fst (parseToken schema policy (stack, roots) (CloseTag name markup))) =
     (case findOpen name stack of
        Some k \<Rightarrow> drop (Suc k) (map frameType stack)
      | None \<Rightarrow> map frameType stack)"
proof (cases "findOpen name stack")
  case None
  then show ?thesis
    by (cases stack)
       (simp_all add: parseToken_def structuralToken_def types_noteMarkup absorb_def noteMarkup_def)
next
  case (Some k)
  obtain stack' roots' where c: "closeFrames schema policy k (stack, roots) = (stack', roots')"
    by (cases "closeFrames schema policy k (stack, roots)")
  have "map frameType stack' = drop k (map frameType stack)"
    using types_closeFrames[of schema policy k "(stack, roots)"] c by simp
  then show ?thesis using Some c
    by (simp add: parseToken_def types_closeTop types_noteMarkup drop_Suc drop_tl)
qed

lemma nestingSearch_append:
  "n \<le> length ys \<Longrightarrow> nestingSearch (ys @ zs) name n = nestingSearch ys name n"
  by (induction n) (auto simp: nth_append)

lemma nestingSearch_bound:
  "nestingSearch xs name n = Some j \<Longrightarrow> j < n"
  by (induction n) (auto split: if_splits)

lemma nestingSearch_None:
  "n \<le> length xs \<Longrightarrow> nestingSearch xs name n = None \<longleftrightarrow> name \<notin> set (take n xs)"
  by (induction n) (auto simp: take_Suc_conv_app_nth)

lemma nestingStackClose_snoc:
  "nestingStackClose (ys @ [x]) name =
     (if x = name then ys
      else if name \<in> set ys then nestingStackClose ys name
      else ys @ [x])"
proof (cases "x = name")
  case True
  then show ?thesis by (simp add: nestingStackClose_def)
next
  case False
  have s: "nestingSearch (ys @ [x]) name (length (ys @ [x])) = nestingSearch ys name (length ys)"
    using False by (simp add: nestingSearch_append)
  show ?thesis
  proof (cases "nestingSearch ys name (length ys)")
    case None
    then have "name \<notin> set ys" using nestingSearch_None[of "length ys" ys name] by simp
    then show ?thesis using False s None by (simp add: nestingStackClose_def)
  next
    case (Some j)
    then have "j < length ys" by (rule nestingSearch_bound)
    moreover have "name \<in> set ys"
      using Some nestingSearch_None[of "length ys" ys name] by auto
    ultimately show ?thesis using False s Some by (simp add: nestingStackClose_def)
  qed
qed

lemma findOpen_None: "findOpen name stack = None \<longleftrightarrow> name \<notin> frameType ` set stack"
  by (induction stack) auto

lemma findOpen_nesting:
  "rev (case findOpen name stack of
          Some k \<Rightarrow> drop (Suc k) (map frameType stack)
        | None \<Rightarrow> map frameType stack) =
   nestingStackClose (rev (map frameType stack)) name"
proof (induction stack)
  case Nil
  then show ?case by (simp add: nestingStackClose_def)
next
  case (Cons f fs)
  show ?case
  proof (cases "frameType f = name")
    case True
    then show ?thesis by (simp add: nestingStackClose_snoc)
  next
    case False
    show ?thesis
    proof (cases "findOpen name fs")
      case None
      then have "name \<notin> frameType ` set fs" by (simp add: findOpen_None)
      then show ?thesis using False None by (simp add: nestingStackClose_snoc)
    next
      case (Some k)
      then have "name \<in> frameType ` set fs" using findOpen_None[of name fs] by auto
      then show ?thesis using False Some Cons by (simp add: nestingStackClose_snoc)
    qed
  qed
qed

text \<open>
  The tree builder treats a closing tag as the nesting-stack policy says: the stack of
  open tags it leaves (read bottom first) is \<open>nestingStackClose\<close> of the stack before.
\<close>

lemma parseToken_follows_nestingStackClose:
  "rev (map frameType (fst (parseToken schema policy (stack, roots) (CloseTag name markup)))) =
     nestingStackClose (rev (map frameType stack)) name"
  by (simp only: types_parseToken_CloseTag findOpen_nesting)

end
